theory Spec2Isabelle
  imports Complex_Main "HOL-Library.AList"
begin

section \<open>Peak selector: the row annotation session of \<^verbatim>\<open>peak_selector.py\<close>\<close>

text \<open>
  The program keeps its session in module-level globals (the table, the current row, the
  per-row selections, the candidate cache) and mutates them from event handlers. The
  embedding threads one \<open>session\<close> record through the handlers. Dictionaries that the source
  shares between names (\<open>selected_points\<close> and the entries of \<open>results\<close>) live in an explicit
  store of dict objects, so that aliasing is visible. Calls of the external peak finder and
  file exports are recorded in two trace fields.
\<close>

subsection \<open>Sample values\<close>

text \<open>
  Cells of the table are float64 values. The loader coerces unparseable cells to NaN, and
  the text \<^verbatim>\<open>inf\<close> parses to an infinity, so both are values a row can hold. A finite
  value is given by the real number it stands for; the two zeros are not told apart (no
  operation of the program separates them). NaN and the infinities follow IEEE 754.
\<close>

datatype fval = Fin real | PInf | NInf | NaN

subsection \<open>Rounding\<close>

text \<open>
  IEEE 754 binary64 rounding of a real number, to nearest with ties to even: 53 significant
  bits, exponents from -1022 (below which the spacing of the subnormal numbers stays
  \<open>2 ^ -1074\<close>) to 1023, and an infinity when the rounded value reaches \<open>2 ^ 1024\<close>.
\<close>

definition round_half_even :: "real \<Rightarrow> int" where
  "round_half_even x =
     (let f = \<lfloor>x\<rfloor>; d = x - of_int f
      in if d < 1 / 2 then f else if 1 / 2 < d then f + 1 else if even f then f else f + 1)"

text \<open>
  The exponent \<open>e\<close> with \<open>2 ^ e \<le> a < 2 ^ (e + 1)\<close>, found by halving or doubling \<open>a\<close>; the
  search stops at 1024 and at -1022.
\<close>

fun exponent_up :: "nat \<Rightarrow> real \<Rightarrow> int \<Rightarrow> int" where
  "exponent_up n a e = (if n = 0 \<or> a < 2 then e else exponent_up (n - 1) (a / 2) (e + 1))"

fun exponent_down :: "nat \<Rightarrow> real \<Rightarrow> int \<Rightarrow> int" where
  "exponent_down n a e = (if n = 0 \<or> 1 \<le> a then e else exponent_down (n - 1) (a * 2) (e - 1))"

declare exponent_up.simps [simp del] exponent_down.simps [simp del]

definition exponent64 :: "real \<Rightarrow> int" where
  "exponent64 a = (if 1 \<le> a then exponent_up 1024 a 0 else exponent_down 1022 a 0)"

definition pow2 :: "int \<Rightarrow> real" where
  "pow2 e = (if 0 \<le> e then 2 ^ nat e else 1 / 2 ^ nat (- e))"

definition round64 :: "real \<Rightarrow> fval" where
  "round64 x =
     (if x = 0 then Fin 0
      else
        (let a = \<bar>x\<bar>; ulp = pow2 (exponent64 a - 52);
             r = of_int (round_half_even (a / ulp)) * ulp
         in if 2 ^ 1024 \<le> r then (if 0 < x then PInf else NInf)
            else Fin (if 0 < x then r else - r)))"

subsection \<open>Arithmetic\<close>

fun is_nan :: "fval \<Rightarrow> bool" where
  "is_nan NaN = True"
| "is_nan _ = False"

text \<open>\<^verbatim>\<open>a - b\<close>, correctly rounded.\<close>

fun fsub :: "fval \<Rightarrow> fval \<Rightarrow> fval" where
  "fsub NaN b = NaN"
| "fsub a NaN = NaN"
| "fsub (Fin a) (Fin b) = round64 (a - b)"
| "fsub (Fin a) PInf = NInf"
| "fsub (Fin a) NInf = PInf"
| "fsub PInf PInf = NaN"
| "fsub PInf b = PInf"
| "fsub NInf NInf = NaN"
| "fsub NInf b = NInf"

text \<open>\<^verbatim>\<open>a ** 2\<close>, taken as the correctly rounded product \<open>a * a\<close>.\<close>

fun fsquare :: "fval \<Rightarrow> fval" where
  "fsquare (Fin a) = round64 (a * a)"
| "fsquare PInf = PInf"
| "fsquare NInf = PInf"
| "fsquare NaN = NaN"

text \<open>\<^verbatim>\<open>a + b\<close>, correctly rounded.\<close>

fun fadd :: "fval \<Rightarrow> fval \<Rightarrow> fval" where
  "fadd NaN b = NaN"
| "fadd a NaN = NaN"
| "fadd (Fin a) (Fin b) = round64 (a + b)"
| "fadd (Fin a) b = b"
| "fadd PInf NInf = NaN"
| "fadd PInf b = PInf"
| "fadd NInf PInf = NaN"
| "fadd NInf b = NInf"

text \<open>\<^verbatim>\<open>a >= b\<close>: false as soon as one side is NaN.\<close>

fun fge :: "fval \<Rightarrow> fval \<Rightarrow> bool" where
  "fge NaN b = False"
| "fge a NaN = False"
| "fge PInf b = True"
| "fge a NInf = True"
| "fge (Fin a) (Fin b) = (b \<le> a)"
| "fge (Fin a) PInf = False"
| "fge NInf b = False"

subsection \<open>Python errors and library functions\<close>

datatype py_error =
  IndexError | KeyError | ValueError | ZeroDivisionError | UnboundLocalError | EOFError

text \<open>
  \<^verbatim>\<open>np.argmin\<close>: the index of the first minimum; a NaN is propagated, so the index of the
  first NaN is returned when there is one. The scan keeps the running minimum \<open>mp\<close> and its
  index \<open>mi\<close>, replaces them when \<^verbatim>\<open>not (v >= mp)\<close>, and stops at a NaN. An empty
  sequence raises ValueError.
\<close>

fun argmin_scan :: "fval list \<Rightarrow> nat \<Rightarrow> fval \<Rightarrow> nat \<Rightarrow> nat" where
  "argmin_scan [] i mp mi = mi"
| "argmin_scan (v # vs) i mp mi =
     (if is_nan mp then mi
      else if \<not> fge v mp then argmin_scan vs (Suc i) v i
      else argmin_scan vs (Suc i) mp mi)"

definition np_argmin :: "fval list \<Rightarrow> py_error + nat" where
  "np_argmin a = (case a of [] \<Rightarrow> Inl ValueError | v # vs \<Rightarrow> Inr (argmin_scan vs 1 v 0))"

text \<open>\<^verbatim>\<open>s.split(',')\<close>: one more part than there are commas.\<close>

fun split_comma :: "string \<Rightarrow> string list" where
  "split_comma [] = [[]]"
| "split_comma (c # cs) =
     (if c = CHR '','' then [] # split_comma cs
      else (case split_comma cs of [] \<Rightarrow> [[c]] | w # ws \<Rightarrow> (c # w) # ws))"

text \<open>\<^verbatim>\<open>s.strip()\<close>, on the ASCII whitespace characters.\<close>

definition is_space :: "char \<Rightarrow> bool" where
  "is_space c = (c \<in> set [CHR '' '', CHR 0x09, CHR 0x0A, CHR 0x0B, CHR 0x0C, CHR 0x0D,
                            CHR 0x1C, CHR 0x1D, CHR 0x1E, CHR 0x1F])"

definition strip :: "string \<Rightarrow> string" where
  "strip s = rev (dropWhile is_space (rev (dropWhile is_space s)))"

subsection \<open>The table\<close>

text \<open>
  A DataFrame: the column labels (the x-values of every row) and the rows, each a label and
  its cells (the y-values). \<^verbatim>\<open>data.empty\<close> holds when an axis has length 0.
\<close>

type_synonym row = "string \<times> fval list"

record table =
  columns :: "fval list"
  rows :: "row list"

definition empty_df :: "table \<Rightarrow> bool" where
  "empty_df d = (rows d = [] \<or> columns d = [])"

definition len_df :: "table \<Rightarrow> int" where
  "len_df d = int (length (rows d))"

text \<open>
  \<^verbatim>\<open>data.iloc[i]\<close> and \<^verbatim>\<open>data.index[i]\<close>: a negative position counts from the end,
  a position out of range raises IndexError.
\<close>

definition iloc :: "table \<Rightarrow> int \<Rightarrow> py_error + row" where
  "iloc d i =
     (let n = len_df d; j = (if i < 0 then n + i else i)
      in if 0 \<le> j \<and> j < n then Inr (rows d ! nat j) else Inl IndexError)"

subsection \<open>Snapping a click to the nearest sample\<close>

type_synonym point = "fval \<times> fval"

text \<open>
  \<^verbatim>\<open>(x - event.xdata)**2 + (y - event.ydata)**2\<close>
\<close>

definition sq_dist :: "fval \<Rightarrow> fval \<Rightarrow> point \<Rightarrow> fval" where
  "sq_dist xdata ydata p = fadd (fsquare (fsub (fst p) xdata)) (fsquare (fsub (snd p) ydata))"

text \<open>
  Lines 207 to 211 of \<^verbatim>\<open>on_click\<close>: the distances over \<^verbatim>\<open>zip(x_data, y_data)\<close>, their argmin,
  and the sample at that position.
\<close>

definition snap :: "fval list \<Rightarrow> fval list \<Rightarrow> fval \<Rightarrow> fval \<Rightarrow> py_error + point" where
  "snap x_data y_data xdata ydata =
     (let distances = map (sq_dist xdata ydata) (zip x_data y_data)
      in case np_argmin distances of
           Inl e \<Rightarrow> Inl e
         | Inr closest_idx \<Rightarrow> Inr (x_data ! closest_idx, y_data ! closest_idx))"

subsection \<open>The session\<close>

text \<open>
  A selection is a dict with the three keys \<^verbatim>\<open>'left'\<close>, \<^verbatim>\<open>'top'\<close>, \<^verbatim>\<open>'right'\<close>, each holding
  \<^verbatim>\<open>None\<close> or a pair. Dict objects live in \<open>heap\<close> under a reference; \<open>results\<close> maps a row
  position to the reference of its dict (an insertion-ordered dict, hence an association
  list), and the global \<open>selected_points\<close> is a reference too.
\<close>

datatype slot = LEFT | TOP | RIGHT

type_synonym selection = "slot \<Rightarrow> point option"

type_synonym ref = nat

datatype file_event =
  Results_csv "(string \<times> point option \<times> point option \<times> point option) list"
| Plot_png int

record session =
  data :: "table option"
  data_filepath :: "string option"
  current_row_index :: int
  num_rows :: int
  selected_points :: ref
  results :: "(int \<times> ref) list"
  peak_candidates :: "int \<rightharpoonup> point list"
  heap :: "ref \<Rightarrow> selection"
  next_ref :: ref
  finder_calls :: "fval list list"
  written :: "file_event list"

text \<open>A handler either returns or raises; the globals keep what was assigned before.\<close>

datatype outcome = Done session | Raised py_error session

fun state_of :: "outcome \<Rightarrow> session" where
  "state_of (Done s) = s"
| "state_of (Raised e s) = s"

text \<open>\<^verbatim>\<open>{'top': None, 'left': None, 'right': None}\<close> evaluated: a new dict object.\<close>

definition no_points :: selection where
  "no_points = (\<lambda>k. None)"

definition new_dict :: "selection \<Rightarrow> session \<Rightarrow> ref \<times> session" where
  "new_dict v s =
     (next_ref s, s\<lparr>heap := (heap s)(next_ref s := v), next_ref := Suc (next_ref s)\<rparr>)"

text \<open>What the renderer reads for a row: \<^verbatim>\<open>results[i]\<close>, dereferenced.\<close>

definition get_row_view :: "session \<Rightarrow> int \<Rightarrow> selection option" where
  "get_row_view s i = map_option (heap s) (map_of (results s) i)"

text \<open>
  \<^verbatim>\<open>{i: {'top': None, 'left': None, 'right': None} for i in range(num_rows)}\<close>: one new dict
  per row position.
\<close>

fun init_results :: "int list \<Rightarrow> (int \<times> ref) list \<Rightarrow> session \<Rightarrow> (int \<times> ref) list \<times> session" where
  "init_results [] acc s = (acc, s)"
| "init_results (i # rest) acc s =
     (case new_dict no_points s of (r, s1) \<Rightarrow> init_results rest (AList.update i r acc) s1)"

definition range_int :: "int \<Rightarrow> int list" where
  "range_int n = map int [0..<nat n]"

subsection \<open>Redrawing: the candidate cache\<close>

text \<open>\<^verbatim>\<open>[(x_data[p], y_data[p]) for p in peaks]\<close>\<close>

fun candidates_of :: "fval list \<Rightarrow> fval list \<Rightarrow> nat list \<Rightarrow> py_error + point list" where
  "candidates_of x_data y_data [] = Inr []"
| "candidates_of x_data y_data (p # ps) =
     (if p < length x_data \<and> p < length y_data
      then (case candidates_of x_data y_data ps of
              Inl e \<Rightarrow> Inl e
            | Inr cs \<Rightarrow> Inr ((x_data ! p, y_data ! p) # cs))
      else Inl IndexError)"

text \<open>
  Lines 139 to 143 of \<^verbatim>\<open>update_plot\<close> ("find peaks if not already stored"). The peak finder
  \<^verbatim>\<open>scipy.signal.find_peaks\<close>, with its fixed prominence and width, is the parameter
  \<open>find_peaks\<close>; each call is appended to \<open>finder_calls\<close> with the sequence it received.
\<close>

definition store_candidates ::
    "(fval list \<Rightarrow> nat list) \<Rightarrow> fval list \<Rightarrow> fval list \<Rightarrow> session \<Rightarrow> outcome" where
  "store_candidates find_peaks x_data y_data s =
     (if peak_candidates s (current_row_index s) \<noteq> None then Done s
      else
        (let peaks = find_peaks y_data;
             s1 = s\<lparr>finder_calls := finder_calls s @ [y_data]\<rparr>
         in case candidates_of x_data y_data peaks of
              Inl e \<Rightarrow> Raised e s1
            | Inr cs \<Rightarrow>
                Done (s1\<lparr>peak_candidates := (peak_candidates s1)(current_row_index s1 \<mapsto> cs)\<rparr>)))"

text \<open>
  \<^verbatim>\<open>update_plot\<close>. Drawing itself is not modelled; what remains is the guard, the row
  lookup, the cache and the lookup of the row's selection.
\<close>

definition update_plot :: "(fval list \<Rightarrow> nat list) \<Rightarrow> session \<Rightarrow> outcome" where
  "update_plot find_peaks s =
     (case data s of
        None \<Rightarrow> Done s
      | Some d \<Rightarrow>
          if empty_df d \<or> current_row_index s \<ge> len_df d then Done s
          else
            (case iloc d (current_row_index s) of
               Inl e \<Rightarrow> Raised e s
             | Inr row_data \<Rightarrow>
                 (case store_candidates find_peaks (columns d) (snd row_data) s of
                    Raised e s1 \<Rightarrow> Raised e s1
                  | Done s1 \<Rightarrow>
                      (case map_of (results s1) (current_row_index s1) of
                         None \<Rightarrow> Raised KeyError s1
                       | Some r \<Rightarrow> Done s1))))"

text \<open>
  \<^verbatim>\<open>find_potential_peaks\<close>: a copy of the values with every NaN replaced by 0 goes to the
  peak finder (\<^verbatim>\<open>np.isnan\<close> is false on an infinity). No handler calls this function.
\<close>

definition nan_to_zero :: "fval list \<Rightarrow> fval list" where
  "nan_to_zero y_data = map (\<lambda>v. if is_nan v then Fin 0 else v) y_data"

definition find_potential_peaks :: "(fval list \<Rightarrow> nat list) \<Rightarrow> fval list \<Rightarrow> session \<Rightarrow> nat list \<times> session" where
  "find_potential_peaks find_peaks y_data s =
     (let y_data_np = nan_to_zero y_data
      in (find_peaks y_data_np, s\<lparr>finder_calls := finder_calls s @ [y_data_np]\<rparr>))"

subsection \<open>Clicks\<close>

record click =
  in_ax :: bool
  xdata :: fval
  ydata :: fval

text \<open>\<^verbatim>\<open>results[current_row_index][point_type] = (closest_x, closest_y)\<close>\<close>

definition set_slot :: "ref \<Rightarrow> slot \<Rightarrow> point \<Rightarrow> session \<Rightarrow> session" where
  "set_slot r k p s = s\<lparr>heap := (heap s)(r := (heap s r)(k \<mapsto> p))\<rparr>"

definition on_click :: "(fval list \<Rightarrow> nat list) \<Rightarrow> click \<Rightarrow> session \<Rightarrow> outcome" where
  "on_click find_peaks event s =
     (case data s of
        None \<Rightarrow> Done s
      | Some d \<Rightarrow>
          if \<not> in_ax event \<or> empty_df d then Done s
          else
            (case iloc d (current_row_index s) of
               Inl e \<Rightarrow> Raised e s
             | Inr row_data \<Rightarrow>
                 (case snap (columns d) (snd row_data) (xdata event) (ydata event) of
                    Inl e \<Rightarrow> Raised e s
                  | Inr closest \<Rightarrow>
                      (case map_of (results s) (current_row_index s) of
                         None \<Rightarrow> Raised KeyError s
                       | Some r \<Rightarrow>
                           (let current_selections = heap s r
                            in if current_selections LEFT = None
                               then update_plot find_peaks (set_slot r LEFT closest s)
                               else if current_selections TOP = None
                               then update_plot find_peaks (set_slot r TOP closest s)
                               else if current_selections RIGHT = None
                               then update_plot find_peaks (set_slot r RIGHT closest s)
                               else
                                 (case new_dict no_points s of
                                    (r', s1) \<Rightarrow>
                                      update_plot find_peaks
                                        (s1\<lparr>results :=
                                              AList.update (current_row_index s1) r' (results s1)\<rparr>)))))))"

subsection \<open>Navigation\<close>

text \<open>
  The body shared by the arrow keys and the two buttons, after the new position is
  computed: assign it, print the row label (\<^verbatim>\<open>data.index[current_row_index]\<close>), redraw.
\<close>

definition goto_row :: "(fval list \<Rightarrow> nat list) \<Rightarrow> table \<Rightarrow> int \<Rightarrow> session \<Rightarrow> outcome" where
  "goto_row find_peaks d i s =
     (let s1 = s\<lparr>current_row_index := i\<rparr>
      in case iloc d i of
           Inl e \<Rightarrow> Raised e s1
         | Inr row_label \<Rightarrow> update_plot find_peaks s1)"

definition next_row_button_clicked :: "(fval list \<Rightarrow> nat list) \<Rightarrow> session \<Rightarrow> outcome" where
  "next_row_button_clicked find_peaks s =
     (case data s of
        None \<Rightarrow> Done s
      | Some d \<Rightarrow>
          if empty_df d then Done s
          else if num_rows s = 0 then Raised ZeroDivisionError s
          else goto_row find_peaks d ((current_row_index s + 1) mod num_rows s) s)"

definition prev_row_button_clicked :: "(fval list \<Rightarrow> nat list) \<Rightarrow> session \<Rightarrow> outcome" where
  "prev_row_button_clicked find_peaks s =
     (case data s of
        None \<Rightarrow> Done s
      | Some d \<Rightarrow>
          if empty_df d then Done s
          else if num_rows s = 0 then Raised ZeroDivisionError s
          else goto_row find_peaks d ((current_row_index s - 1 + num_rows s) mod num_rows s) s)"

subsection \<open>Clearing and manual entry\<close>

definition clear_selection :: "(fval list \<Rightarrow> nat list) \<Rightarrow> session \<Rightarrow> outcome" where
  "clear_selection find_peaks s =
     (case data s of
        None \<Rightarrow> Done s
      | Some d \<Rightarrow>
          if empty_df d then Done s
          else
            (case iloc d (current_row_index s) of
               Inl e \<Rightarrow> Raised e s
             | Inr row_label \<Rightarrow>
                 (case new_dict no_points s of
                    (r, s1) \<Rightarrow>
                      update_plot find_peaks
                        (s1\<lparr>selected_points := r,
                            results := AList.update (current_row_index s1) r (results s1)\<rparr>))))"

text \<open>
  \<^verbatim>\<open>x_str, y_str = s.split(','); (float(x_str.strip()), float(y_str.strip()))\<close>. The builtin
  \<^verbatim>\<open>float\<close> is the parameter \<open>pyfloat\<close>; \<open>None\<close> stands for a ValueError, from the unpacking or
  from \<^verbatim>\<open>float\<close>.
\<close>

definition parse_xy :: "(string \<Rightarrow> fval option) \<Rightarrow> string \<Rightarrow> point option" where
  "parse_xy pyfloat str =
     (case split_comma str of
        [x_str, y_str] \<Rightarrow>
          (case pyfloat (strip x_str) of
             None \<Rightarrow> None
           | Some x \<Rightarrow> (case pyfloat (strip y_str) of None \<Rightarrow> None | Some y \<Rightarrow> Some (x, y)))
      | _ \<Rightarrow> None)"

text \<open>
  One prompt of \<^verbatim>\<open>manual_input\<close>: read a line from the console (the list \<open>inp\<close> of lines still
  to come; none left is an EOFError), skip it when blank, else parse it and assign the key of
  the dict \<open>selected_points\<close> in place.
\<close>

definition enter :: "(string \<Rightarrow> fval option) \<Rightarrow> slot \<Rightarrow> string list \<Rightarrow> session
    \<Rightarrow> string list \<times> (py_error + session)" where
  "enter pyfloat k inp s =
     (case inp of
        [] \<Rightarrow> ([], Inl EOFError)
      | str # rest \<Rightarrow>
          if str = [] then (rest, Inr s)
          else
            (case parse_xy pyfloat str of
               None \<Rightarrow> (rest, Inl ValueError)
             | Some p \<Rightarrow> (rest, Inr (set_slot (selected_points s) k p s))))"

text \<open>
  \<^verbatim>\<open>manual_input\<close>: the three prompts, the store into \<open>results\<close> and the redraw sit in one
  \<^verbatim>\<open>try\<close>, whose handlers print and return. The result is the console input left unread and
  the session.
\<close>

definition manual_input :: "(string \<Rightarrow> fval option) \<Rightarrow> (fval list \<Rightarrow> nat list) \<Rightarrow> string list
    \<Rightarrow> session \<Rightarrow> string list \<times> session" where
  "manual_input pyfloat find_peaks inp s =
     (case data s of
        None \<Rightarrow> (inp, s)
      | Some d \<Rightarrow>
          if empty_df d then (inp, s)
          else
            (case enter pyfloat TOP inp s of
               (inp1, Inl e) \<Rightarrow> (inp1, s)
             | (inp1, Inr s1) \<Rightarrow>
                 (case enter pyfloat LEFT inp1 s1 of
                    (inp2, Inl e) \<Rightarrow> (inp2, s1)
                  | (inp2, Inr s2) \<Rightarrow>
                      (case enter pyfloat RIGHT inp2 s2 of
                         (inp3, Inl e) \<Rightarrow> (inp3, s2)
                       | (inp3, Inr s3) \<Rightarrow>
                           (inp3,
                            state_of (update_plot find_peaks
                              (s3\<lparr>results :=
                                    AList.update (current_row_index s3) (selected_points s3)
                                      (results s3)\<rparr>)))))))"

subsection \<open>Loading a table\<close>

text \<open>
  \<^verbatim>\<open>change_data_file\<close>. The file dialog's answer is \<open>new_file\<close> (empty when cancelled) and the
  loader \<^verbatim>\<open>load_data\<close>, which reads the file system, is the parameter \<open>load_data\<close> (\<open>None\<close> when
  it fails). The body sits in one \<^verbatim>\<open>try\<close> whose handler prints and returns.
\<close>

definition change_data_file :: "(string \<Rightarrow> table option) \<Rightarrow> (fval list \<Rightarrow> nat list) \<Rightarrow> string
    \<Rightarrow> session \<Rightarrow> session" where
  "change_data_file load_data find_peaks new_file s =
     (if new_file = [] then s
      else
        (case load_data new_file of
           None \<Rightarrow> s
         | Some new_data \<Rightarrow>
             if empty_df new_data then s
             else
               (let s1 = s\<lparr>data := Some new_data, data_filepath := Some new_file,
                           num_rows := len_df new_data, current_row_index := 0\<rparr>
                in case init_results (range_int (num_rows s1)) [] s1 of
                     (res, s2) \<Rightarrow>
                       state_of (update_plot find_peaks
                         (s2\<lparr>results := res, peak_candidates := Map.empty\<rparr>)))))"

text \<open>
  The module's globals before \<^verbatim>\<open>__main__\<close> runs (reference 0 is the dict bound to
  \<open>selected_points\<close>), and the start of \<^verbatim>\<open>__main__\<close>; \<open>None\<close> is \<^verbatim>\<open>sys.exit\<close>.
\<close>

definition globals0 :: session where
  "globals0 =
     \<lparr>data = None, data_filepath = None, current_row_index = 0, num_rows = 0,
      selected_points = 0, results = [], peak_candidates = Map.empty,
      heap = (\<lambda>r. no_points), next_ref = 1, finder_calls = [], written = []\<rparr>"

definition main_program :: "(string \<Rightarrow> table option) \<Rightarrow> (fval list \<Rightarrow> nat list) \<Rightarrow> string
    \<Rightarrow> outcome option" where
  "main_program load_data find_peaks initial_file =
     (if initial_file = [] then None
      else
        (case load_data initial_file of
           None \<Rightarrow> None
         | Some d \<Rightarrow>
             if empty_df d then None
             else
               (let s1 = globals0\<lparr>data_filepath := Some initial_file, data := Some d,
                                  num_rows := len_df d\<rparr>
                in case init_results (range_int (num_rows s1)) [] s1 of
                     (res, s2) \<Rightarrow> Some (update_plot find_peaks (s2\<lparr>results := res\<rparr>)))))"

subsection \<open>Saving\<close>

text \<open>
  File output is recorded in \<open>written\<close>; file names, directories and failures of the file
  system are not modelled. \<^verbatim>\<open>save_plot(row_idx, filename_prefix)\<close>:
\<close>

definition no_filepath :: "session \<Rightarrow> bool" where
  "no_filepath s = (data_filepath s = None \<or> data_filepath s = Some [])"

definition save_plot :: "int option \<Rightarrow> string option \<Rightarrow> session \<Rightarrow> outcome" where
  "save_plot row_idx filename_prefix s =
     (case data s of
        None \<Rightarrow> Done s
      | Some d \<Rightarrow>
          if empty_df d then Done s
          else
            (let idx = (case row_idx of None \<Rightarrow> current_row_index s | Some i \<Rightarrow> i)
             in if filename_prefix = None \<and> no_filepath s then Done s
                else if idx \<ge> len_df d then Done s
                else (case iloc d idx of
                        Inl e \<Rightarrow> Raised e s
                      | Inr row_label \<Rightarrow> Done (s\<lparr>written := written s @ [Plot_png idx]\<rparr>))))"

text \<open>The loop of \<^verbatim>\<open>save_results\<close> over \<^verbatim>\<open>results.items()\<close>.\<close>

fun output_data :: "table \<Rightarrow> (ref \<Rightarrow> selection) \<Rightarrow> (int \<times> ref) list
    \<Rightarrow> py_error + (string \<times> point option \<times> point option \<times> point option) list" where
  "output_data d h [] = Inr []"
| "output_data d h ((row_idx, r) # rest) =
     (if row_idx < len_df d
      then (case iloc d row_idx of
              Inl e \<Rightarrow> Inl e
            | Inr row_data \<Rightarrow>
                (case output_data d h rest of
                   Inl e \<Rightarrow> Inl e
                 | Inr out \<Rightarrow> Inr ((fst row_data, h r LEFT, h r TOP, h r RIGHT) # out)))
      else output_data d h rest)"

definition save_results :: "session \<Rightarrow> outcome" where
  "save_results s =
     (if no_filepath s then Done s
      else
        (case data s of
           None \<Rightarrow> Done s
         | Some d \<Rightarrow>
             if empty_df d then Done s
             else
               (case output_data d (heap s) (results s) of
                  Inl e \<Rightarrow> Raised e s
                | Inr out \<Rightarrow>
                    (let s1 = s\<lparr>written := written s @ [Results_csv out]\<rparr>
                     in case iloc d (current_row_index s1) of
                          Inl e \<Rightarrow> Done s1
                        | Inr row_label \<Rightarrow> Done (state_of (save_plot None (data_filepath s1) s1))))))"

text \<open>
  The loop of \<^verbatim>\<open>save_all_plots\<close>. Its assignment \<^verbatim>\<open>current_row_index = idx\<close> binds a local
  name (the function declares only \<^verbatim>\<open>data_filepath\<close> global), so \<^verbatim>\<open>update_plot\<close> still reads
  the global position.
\<close>

fun save_loop :: "(fval list \<Rightarrow> nat list) \<Rightarrow> int list \<Rightarrow> session \<Rightarrow> outcome" where
  "save_loop find_peaks [] s = Done s"
| "save_loop find_peaks (idx # rest) s =
     (case update_plot find_peaks s of
        Raised e s1 \<Rightarrow> Raised e s1
      | Done s1 \<Rightarrow>
          (case save_plot (Some idx) (data_filepath s1) s1 of
             Raised e s2 \<Rightarrow> Raised e s2
           | Done s2 \<Rightarrow> save_loop find_peaks rest s2))"

text \<open>
  \<^verbatim>\<open>save_all_plots\<close>. Because \<^verbatim>\<open>current_row_index\<close> is assigned in the body without a
  \<^verbatim>\<open>global\<close> declaration, Python compiles every use of the name in this function as a local
  variable; \<open>local_current_row_index\<close> is that variable, unbound on entry. The first statement
  \<^verbatim>\<open>current_idx = current_row_index\<close> reads it.
\<close>

definition save_all_plots :: "(fval list \<Rightarrow> nat list) \<Rightarrow> session \<Rightarrow> outcome" where
  "save_all_plots find_peaks s =
     (let local_current_row_index = (None :: int option)
      in case local_current_row_index of
           None \<Rightarrow> Raised UnboundLocalError s
         | Some current_idx \<Rightarrow>
             if no_filepath s then Done s
             else
               (case data s of
                  None \<Rightarrow> Done s
                | Some d \<Rightarrow>
                    if empty_df d then Done s
                    else update_plot find_peaks
                           (state_of (save_loop find_peaks (range_int (num_rows s)) s))))"

subsection \<open>Keys\<close>

text \<open>
  \<^verbatim>\<open>on_key\<close>, with what the handlers read from outside: the console lines \<open>inp\<close> and the file
  dialog's answer \<open>new_file\<close>.
\<close>

definition on_key :: "(string \<Rightarrow> fval option) \<Rightarrow> (fval list \<Rightarrow> nat list) \<Rightarrow> (string \<Rightarrow> table option)
    \<Rightarrow> string list \<Rightarrow> string \<Rightarrow> string \<Rightarrow> session \<Rightarrow> string list \<times> outcome" where
  "on_key pyfloat find_peaks load_data inp new_file key s =
     (case data s of
        None \<Rightarrow> (inp, Done s)
      | Some d \<Rightarrow>
          if empty_df d then (inp, Done s)
          else if key = ''right'' then
            (inp, if num_rows s = 0 then Raised ZeroDivisionError s
                  else goto_row find_peaks d ((current_row_index s + 1) mod num_rows s) s)
          else if key = ''left'' then
            (inp, if num_rows s = 0 then Raised ZeroDivisionError s
                  else goto_row find_peaks d
                         ((current_row_index s - 1 + num_rows s) mod num_rows s) s)
          else if key = ''m'' then
            (case manual_input pyfloat find_peaks inp s of (inp1, s1) \<Rightarrow> (inp1, Done s1))
          else if key = ''c'' then (inp, clear_selection find_peaks s)
          else if key = ''s'' then (inp, save_results s)
          else if key = ''o'' then (inp, Done (change_data_file load_data find_peaks new_file s))
          else if key = ''p'' then (inp, save_plot None None s)
          else if key = ''a'' then (inp, save_all_plots find_peaks s)
          else (inp, Done s))"

subsection \<open>Events\<close>

text \<open>
  The callbacks \<^verbatim>\<open>__main__\<close> connects: the mouse and key handlers of the figure and the five
  buttons. A key press carries what its handler may read from outside (the console lines and
  the file dialog's answer), the Switch File button the dialog's answer.
\<close>

datatype event =
  Button_press click
| Key_press string "string list" string
| Prev_button | Next_button | Save_button | Switch_button string | Save_plot_button

definition dispatch :: "(string \<Rightarrow> fval option) \<Rightarrow> (fval list \<Rightarrow> nat list) \<Rightarrow> (string \<Rightarrow> table option)
    \<Rightarrow> event \<Rightarrow> session \<Rightarrow> session" where
  "dispatch pyfloat find_peaks load_data ev s =
     (case ev of
        Button_press c \<Rightarrow> state_of (on_click find_peaks c s)
      | Key_press key inp new_file \<Rightarrow>
          state_of (snd (on_key pyfloat find_peaks load_data inp new_file key s))
      | Prev_button \<Rightarrow> state_of (prev_row_button_clicked find_peaks s)
      | Next_button \<Rightarrow> state_of (next_row_button_clicked find_peaks s)
      | Save_button \<Rightarrow> state_of (save_results s)
      | Switch_button new_file \<Rightarrow> change_data_file load_data find_peaks new_file s
      | Save_plot_button \<Rightarrow> state_of (save_plot None None s))"

text \<open>The events that open the file dialog.\<close>

fun opens_file :: "event \<Rightarrow> bool" where
  "opens_file (Key_press key inp new_file) = (key = ''o'')"
| "opens_file (Switch_button new_file) = True"
| "opens_file ev = False"

text \<open>The event loop, one event after the other.\<close>

fun run :: "(string \<Rightarrow> fval option) \<Rightarrow> (fval list \<Rightarrow> nat list) \<Rightarrow> (string \<Rightarrow> table option)
    \<Rightarrow> event list \<Rightarrow> session \<Rightarrow> session" where
  "run pyfloat find_peaks load_data [] s = s"
| "run pyfloat find_peaks load_data (ev # evs) s =
     run pyfloat find_peaks load_data evs (dispatch pyfloat find_peaks load_data ev s)"

text \<open>Every cache entry of \<open>s\<close> is still there, unchanged, in \<open>s'\<close>.\<close>

definition cache_kept :: "session \<Rightarrow> session \<Rightarrow> bool" where
  "cache_kept s s' = (\<forall>i c. peak_candidates s i = Some c \<longrightarrow> peak_candidates s' i = Some c)"

subsection \<open>Concrete inputs\<close>

text \<open>
  An instance of \<open>pyfloat\<close> for the runs evaluated below: Python's \<^verbatim>\<open>float\<close> on plain decimal
  literals (an optional sign, digits, an optional point), the decimal value rounded to
  float64. Literals with an exponent or an
  underscore and the words \<^verbatim>\<open>inf\<close> and \<^verbatim>\<open>nan\<close>, which \<^verbatim>\<open>float\<close> also accepts, lie outside
  this fragment and are not used in the runs.
\<close>

definition digit_value :: "char \<Rightarrow> nat option" where
  "digit_value c =
     (let n = (of_char c :: nat) in if 48 \<le> n \<and> n \<le> 57 then Some (n - 48) else None)"

fun digits_value :: "string \<Rightarrow> nat \<Rightarrow> nat option" where
  "digits_value [] acc = Some acc"
| "digits_value (c # cs) acc =
     (case digit_value c of None \<Rightarrow> None | Some v \<Rightarrow> digits_value cs (10 * acc + v))"

definition unsigned_decimal :: "string \<Rightarrow> real option" where
  "unsigned_decimal s =
     (let ip = takeWhile (\<lambda>c. c \<noteq> CHR ''.'') s; rest = dropWhile (\<lambda>c. c \<noteq> CHR ''.'') s
      in case rest of
           [] \<Rightarrow> (if ip = [] then None else map_option real (digits_value ip 0))
         | dot # fp \<Rightarrow>
             if ip = [] \<and> fp = [] then None
             else (case (digits_value ip 0, digits_value fp 0) of
                     (Some a, Some b) \<Rightarrow> Some (real a + real b / 10 ^ length fp)
                   | _ \<Rightarrow> None))"

definition float_decimal :: "string \<Rightarrow> fval option" where
  "float_decimal s =
     (case s of
        [] \<Rightarrow> None
      | c # cs \<Rightarrow>
          if c = CHR ''-'' then map_option (\<lambda>r. round64 (- r)) (unsigned_decimal cs)
          else if c = CHR ''+'' then map_option round64 (unsigned_decimal cs)
          else map_option round64 (unsigned_decimal s))"

text \<open>
  A table of two rows over the x-values 0 to 4. Row 0 is the curve
  (0,0), (1,5), (2,1), (3,4), (4,0); row 1 has a cell that did not parse (NaN) and an
  infinite one. \<open>example_session\<close> is the session \<^verbatim>\<open>__main__\<close> builds for it, before the
  first redraw.
\<close>

definition example_table :: table where
  "example_table =
     \<lparr>columns = [Fin 0, Fin 1, Fin 2, Fin 3, Fin 4],
      rows = [(''r0'', [Fin 0, Fin 5, Fin 1, Fin 4, Fin 0]),
              (''r1'', [Fin 1, NaN, Fin 2, PInf, Fin 0])]\<rparr>"

definition example_session :: session where
  "example_session =
     \<lparr>data = Some example_table, data_filepath = Some ''curves.csv'', current_row_index = 0,
      num_rows = 2, selected_points = 0, results = [(0, 1), (1, 2)],
      peak_candidates = Map.empty, heap = (\<lambda>r. no_points), next_ref = 3,
      finder_calls = [], written = []\<rparr>"

text \<open>A peak finder that answers the positions 1 and 3, as for row 0 of the example.\<close>

definition example_find_peaks :: "fval list \<Rightarrow> nat list" where
  "example_find_peaks y_data = [1, 3]"

text \<open>A click inside the plot at the float64 values nearest to the coordinates \<open>(x, y)\<close>.\<close>

definition click_at :: "real \<Rightarrow> real \<Rightarrow> click" where
  "click_at x y = \<lparr>in_ax = True, xdata = round64 x, ydata = round64 y\<rparr>"

section \<open>Properties\<close>

subsection \<open>Rounded values\<close>

text \<open>The equations that evaluate \<open>round64\<close> on a numeral.\<close>

lemmas round64_eval = round64_def Let_def exponent64_def exponent_up.simps [of "numeral k" for k]
  exponent_down.simps [of "numeral k" for k] pow2_def round_half_even_def

lemma round64_not_nan: "\<not> is_nan (round64 x)"
  by (simp add: round64_def Let_def)

lemma round64_0: "round64 0 = Fin 0"
  by (simp add: round64_def)

lemma round64_ints:
  "round64 1 = Fin 1" "round64 2 = Fin 2" "round64 3 = Fin 3" "round64 4 = Fin 4"
  "round64 5 = Fin 5" "round64 6 = Fin 6"
  by (simp_all add: round64_eval split del: if_split)

lemma round64_examples:
  "round64 (11 / 10) = Fin (2476979795053773 / 2251799813685248)"
  "round64 (1 / 3) = Fin (6004799503160661 / 18014398509481984)"
  "round64 (10000000000000000 + 9 / 16) = Fin 10000000000000000"
  by (simp_all add: round64_eval split del: if_split)

subsection \<open>What a redraw leaves alone\<close>

lemma store_candidates_frame:
  "state_of (store_candidates fp x y s) =
     s\<lparr>peak_candidates := peak_candidates (state_of (store_candidates fp x y s)),
       finder_calls := finder_calls (state_of (store_candidates fp x y s))\<rparr>"
  by (simp add: store_candidates_def Let_def split: sum.splits)

lemma store_candidates_Done_frame:
  "store_candidates fp x y s = Done s1 \<Longrightarrow>
     s1 = s\<lparr>peak_candidates := peak_candidates s1, finder_calls := finder_calls s1\<rparr>"
  using store_candidates_frame [of fp x y s] by simp

lemma store_candidates_Raised_frame:
  "store_candidates fp x y s = Raised e s1 \<Longrightarrow>
     s1 = s\<lparr>peak_candidates := peak_candidates s1, finder_calls := finder_calls s1\<rparr>"
  using store_candidates_frame [of fp x y s] by simp

lemma update_plot_frame:
  "state_of (update_plot fp s) =
     s\<lparr>peak_candidates := peak_candidates (state_of (update_plot fp s)),
       finder_calls := finder_calls (state_of (update_plot fp s))\<rparr>"
  by (auto simp: update_plot_def split: option.splits sum.splits outcome.splits
           dest: store_candidates_Done_frame store_candidates_Raised_frame)

lemma update_plot_fields [simp]:
  "data (state_of (update_plot fp s)) = data s"
  "data_filepath (state_of (update_plot fp s)) = data_filepath s"
  "current_row_index (state_of (update_plot fp s)) = current_row_index s"
  "num_rows (state_of (update_plot fp s)) = num_rows s"
  "selected_points (state_of (update_plot fp s)) = selected_points s"
  "results (state_of (update_plot fp s)) = results s"
  "heap (state_of (update_plot fp s)) = heap s"
  "next_ref (state_of (update_plot fp s)) = next_ref s"
  "written (state_of (update_plot fp s)) = written s"
  by (subst update_plot_frame, simp)+

lemma update_plot_view [simp]:
  "get_row_view (state_of (update_plot fp s)) i = get_row_view s i"
  by (simp add: get_row_view_def)

lemma update_plot_cached:
  "peak_candidates s (current_row_index s) \<noteq> None \<Longrightarrow> state_of (update_plot fp s) = s"
  by (auto simp: update_plot_def store_candidates_def split: option.splits sum.splits)

lemma main_program_example:
  "main_program (\<lambda>f. Some example_table) fp ''curves.csv'' = Some (update_plot fp example_session)"
proof -
  have "(\<lambda>r. no_points)(Suc 0 := no_points, Suc (Suc 0) := no_points) = (\<lambda>r. no_points)"
    by (simp add: fun_eq_iff)
  then show ?thesis
    by (simp add: main_program_def example_table_def example_session_def empty_df_def len_df_def
          globals0_def range_int_def new_dict_def upt_rec eval_nat_numeral)
qed

subsection \<open>Saving all plots\<close>

text \<open>
  C9. The "save all plots" command is meant to export the rows 0 to N-1 in ascending order
  and then restore the current row. In the code, \<^verbatim>\<open>save_all_plots\<close> raises UnboundLocalError at
  its first statement, for every session: nothing is exported and no global changes.
\<close>

theorem save_all_plots_raises:
  "save_all_plots find_peaks s = Raised UnboundLocalError s
   \<and> written (state_of (save_all_plots find_peaks s)) = written s"
  by (simp add: save_all_plots_def)

subsection \<open>The example table\<close>

lemma example_iloc0: "iloc example_table 0 = Inr (''r0'', [Fin 0, Fin 5, Fin 1, Fin 4, Fin 0])"
  by (simp add: iloc_def example_table_def len_df_def)

lemma example_iloc1: "iloc example_table 1 = Inr (''r1'', [Fin 1, NaN, Fin 2, PInf, Fin 0])"
  by (simp add: iloc_def example_table_def len_df_def)

lemma example_not_empty: "\<not> empty_df example_table"
  by (simp add: empty_df_def example_table_def)

lemma example_len: "len_df example_table = 2"
  by (simp add: len_df_def example_table_def)

lemma example_columns: "columns example_table = [Fin 0, Fin 1, Fin 2, Fin 3, Fin 4]"
  by (simp add: example_table_def)

subsection \<open>The candidate cache\<close>

lemma cache_kept_refl [simp]: "cache_kept s s"
  by (simp add: cache_kept_def)

lemma cache_kept_trans: "cache_kept s s1 \<Longrightarrow> cache_kept s1 s2 \<Longrightarrow> cache_kept s s2"
  by (simp add: cache_kept_def)

lemma cache_kept_eq: "peak_candidates s1 = peak_candidates s \<Longrightarrow> cache_kept s s1"
  by (simp add: cache_kept_def)

lemma store_candidates_kept: "cache_kept s (state_of (store_candidates fp x y s))"
  by (auto simp: store_candidates_def cache_kept_def Let_def split: sum.splits)

lemma update_plot_kept: "cache_kept s (state_of (update_plot fp s))"
proof -
  have "state_of (update_plot fp s) = s \<or>
        (\<exists>x y. state_of (update_plot fp s) = state_of (store_candidates fp x y s))"
    by (auto simp: update_plot_def split: option.splits sum.splits outcome.splits)
       (metis state_of.simps)+
  then show ?thesis
    using store_candidates_kept by auto
qed

lemma update_plot_kept': "peak_candidates s' = peak_candidates s \<Longrightarrow> cache_kept s (state_of (update_plot fp s'))"
  using update_plot_kept [of s' fp] by (simp add: cache_kept_def)

lemma on_click_kept: "cache_kept s (state_of (on_click fp ev s))"
  by (simp add: on_click_def set_slot_def new_dict_def Let_def update_plot_kept'
           split: option.splits sum.splits)

lemma goto_row_kept: "cache_kept s (state_of (goto_row fp d i s))"
  by (simp add: goto_row_def Let_def cache_kept_eq update_plot_kept' split: sum.splits)

lemma next_kept: "cache_kept s (state_of (next_row_button_clicked fp s))"
  by (simp add: next_row_button_clicked_def goto_row_kept split: option.splits)

lemma prev_kept: "cache_kept s (state_of (prev_row_button_clicked fp s))"
  by (simp add: prev_row_button_clicked_def goto_row_kept split: option.splits)

lemma clear_selection_kept: "cache_kept s (state_of (clear_selection fp s))"
  by (simp add: clear_selection_def new_dict_def update_plot_kept'
           split: option.splits sum.splits)

lemma enter_cache: "enter pf k inp s = (inp1, Inr s1) \<Longrightarrow> peak_candidates s1 = peak_candidates s"
  by (auto simp: enter_def set_slot_def split: list.splits if_splits option.splits)

lemma manual_input_kept: "cache_kept s (snd (manual_input pf fp inp s))"
proof (cases "enter pf TOP inp s")
  case (Pair inp1 r1)
  show ?thesis
  proof (cases r1)
    case (Inl e)
    with Pair show ?thesis by (simp add: manual_input_def split: option.splits)
  next
    case (Inr s1)
    note r1 = this
    have c1: "peak_candidates s1 = peak_candidates s"
      using Pair r1 enter_cache by blast
    show ?thesis
    proof (cases "enter pf LEFT inp1 s1")
      case (Pair inp2 r2)
      note p2 = this
      show ?thesis
      proof (cases r2)
        case (Inl e)
        with \<open>enter pf TOP inp s = (inp1, r1)\<close> r1 p2 c1 show ?thesis
          by (simp add: manual_input_def cache_kept_eq split: option.splits)
      next
        case (Inr s2)
        note r2 = this
        have c2: "peak_candidates s2 = peak_candidates s"
          using p2 r2 enter_cache c1 by metis
        show ?thesis
        proof (cases "enter pf RIGHT inp2 s2")
          case (Pair inp3 r3)
          note p3 = this
          show ?thesis
          proof (cases r3)
            case (Inl e)
            with \<open>enter pf TOP inp s = (inp1, r1)\<close> r1 p2 r2 p3 c2 show ?thesis
              by (simp add: manual_input_def cache_kept_eq split: option.splits)
          next
            case (Inr s3)
            have c3: "peak_candidates s3 = peak_candidates s"
              using p3 Inr enter_cache c2 by metis
            with \<open>enter pf TOP inp s = (inp1, r1)\<close> r1 p2 r2 p3 Inr show ?thesis
              by (simp add: manual_input_def cache_kept_eq update_plot_kept' split: option.splits)
          qed
        qed
      qed
    qed
  qed
qed

lemma save_plot_cache: "peak_candidates (state_of (save_plot i p s)) = peak_candidates s"
  by (simp add: save_plot_def Let_def split: option.splits sum.splits)

lemma save_results_cache: "peak_candidates (state_of (save_results s)) = peak_candidates s"
  by (simp add: save_results_def Let_def save_plot_cache split: option.splits sum.splits)

lemma on_key_kept: "key \<noteq> ''o'' \<Longrightarrow> cache_kept s (state_of (snd (on_key pf fp ld inp nf key s)))"
  using manual_input_kept [of s pf fp inp]
  by (simp add: on_key_def goto_row_kept clear_selection_kept save_plot_cache save_results_cache
        save_all_plots_def cache_kept_eq case_prod_beta split: option.splits)

lemma dispatch_kept: "\<not> opens_file ev \<Longrightarrow> cache_kept s (dispatch pf fp ld ev s)"
  by (cases ev)
     (simp_all add: dispatch_def on_click_kept on_key_kept next_kept prev_kept cache_kept_eq
        save_plot_cache save_results_cache)

lemma run_kept: "\<forall>ev\<in>set evs. \<not> opens_file ev \<Longrightarrow> cache_kept s (run pf fp ld evs s)"
proof (induction evs arbitrary: s)
  case Nil
  then show ?case by simp
next
  case (Cons ev evs)
  then show ?case
    using cache_kept_trans [OF dispatch_kept [of ev s pf fp ld] Cons.IH] by simp
qed

lemma candidates_of_Inr:
  "candidates_of x y ps = Inr cs \<Longrightarrow>
     cs = map (\<lambda>p. (x ! p, y ! p)) ps \<and> (\<forall>p\<in>set ps. p < length x \<and> p < length y)"
  by (induction ps arbitrary: cs) (auto split: if_splits sum.splits)

lemma candidates_of_samples:
  assumes "candidates_of x y ps = Inr cs"
  shows "set cs \<subseteq> set (zip x y)"
proof
  fix c assume "c \<in> set cs"
  with candidates_of_Inr [OF assms] obtain p where "p \<in> set ps" "c = (x ! p, y ! p)"
    "p < length x" "p < length y"
    by auto
  then show "c \<in> set (zip x y)"
    by (auto simp: set_zip)
qed

lemma update_plot_first:
  assumes "data s = Some d" and "\<not> empty_df d"
    and "current_row_index s < len_df d" and "iloc d (current_row_index s) = Inr row"
    and "map_of (results s) (current_row_index s) = Some r"
    and "peak_candidates s (current_row_index s) = None"
    and "candidates_of (columns d) (snd row) (find_peaks (snd row)) = Inr cs"
  shows "update_plot find_peaks s =
           Done (s\<lparr>finder_calls := finder_calls s @ [snd row],
                   peak_candidates := (peak_candidates s)(current_row_index s \<mapsto> cs)\<rparr>)"
  using assms by (simp add: update_plot_def store_candidates_def Let_def)

lemma update_plot_again:
  assumes "data s = Some d" and "\<not> empty_df d"
    and "current_row_index s < len_df d" and "iloc d (current_row_index s) = Inr row"
    and "map_of (results s) (current_row_index s) = Some r"
    and "peak_candidates s (current_row_index s) = Some cs"
  shows "update_plot find_peaks s = Done s"
  using assms by (simp add: update_plot_def store_candidates_def Let_def)

text \<open>
  C5. Non-finite y-values are meant to be replaced by 0 before detection.
  \<^verbatim>\<open>find_potential_peaks\<close> does so for NaN, but \<^verbatim>\<open>update_plot\<close> calls the peak finder on the
  row itself: for row 1 of the example the peak finder receives the NaN (and the infinity,
  which \<^verbatim>\<open>find_potential_peaks\<close> would pass on as well).
\<close>

theorem redraw_passes_nan_to_peak_finder:
  "finder_calls (state_of (update_plot find_peaks (example_session\<lparr>current_row_index := 1\<rparr>)))
     = [[Fin 1, NaN, Fin 2, PInf, Fin 0]]
   \<and> finder_calls (snd (find_potential_peaks find_peaks [Fin 1, NaN, Fin 2, PInf, Fin 0]
                          (example_session\<lparr>current_row_index := 1\<rparr>)))
     = [[Fin 1, Fin 0, Fin 2, PInf, Fin 0]]"
  by (simp add: update_plot_def store_candidates_def Let_def example_session_def example_len
        example_iloc1 example_not_empty find_potential_peaks_def nan_to_zero_def
      split: sum.splits)

subsection \<open>Clicks fill the slots in order\<close>

lemma snap_returns:
  assumes "x_data \<noteq> []" and "y_data \<noteq> []"
  shows "\<exists>p. snap x_data y_data qx qy = Inr p"
proof -
  from assms obtain a x' b y' where "x_data = a # x'" "y_data = b # y'"
    by (cases x_data; cases y_data) auto
  then show ?thesis
    by (simp add: snap_def np_argmin_def)
qed

lemma on_click_state:
  assumes "data s = Some d" and "\<not> empty_df d" and "in_ax ev"
    and "iloc d (current_row_index s) = Inr row"
    and "snap (columns d) (snd row) (xdata ev) (ydata ev) = Inr p"
    and "map_of (results s) (current_row_index s) = Some r"
  shows "state_of (on_click fp ev s) =
     state_of (update_plot fp
       (if heap s r LEFT = None then set_slot r LEFT p s
        else if heap s r TOP = None then set_slot r TOP p s
        else if heap s r RIGHT = None then set_slot r RIGHT p s
        else (snd (new_dict no_points s))
               \<lparr>results := AList.update (current_row_index s) (next_ref s) (results s)\<rparr>))"
  using assms by (simp add: on_click_def Let_def new_dict_def)

lemma view_set_slot:
  "map_of (results s) i = Some r \<Longrightarrow>
     get_row_view (set_slot r k p s) i = Some ((heap s r)(k \<mapsto> p))"
  by (simp add: get_row_view_def set_slot_def)

lemma view_reset:
  "get_row_view ((snd (new_dict no_points s))\<lparr>results := AList.update i (next_ref s) (results s)\<rparr>) i
     = Some no_points"
  by (simp add: get_row_view_def new_dict_def update_conv')

lemma on_click_view:
  assumes "data s = Some d" and "\<not> empty_df d" and "in_ax ev"
    and "iloc d (current_row_index s) = Inr row"
    and "snap (columns d) (snd row) (xdata ev) (ydata ev) = Inr p"
    and "map_of (results s) (current_row_index s) = Some r"
  shows "get_row_view (state_of (on_click fp ev s)) (current_row_index s) =
     Some (if heap s r LEFT = None then (heap s r)(LEFT \<mapsto> p)
           else if heap s r TOP = None then (heap s r)(TOP \<mapsto> p)
           else if heap s r RIGHT = None then (heap s r)(RIGHT \<mapsto> p)
           else no_points)"
  by (simp add: on_click_state [OF assms] view_set_slot [OF assms(6)] view_reset)

lemma set_slot_fields [simp]:
  "data (set_slot r k p s) = data s"
  "current_row_index (set_slot r k p s) = current_row_index s"
  "results (set_slot r k p s) = results s"
  "heap (set_slot r k p s) = (heap s)(r := (heap s r)(k \<mapsto> p))"
  by (simp_all add: set_slot_def)

lemma on_click_fill:
  assumes "data s = Some d" and "\<not> empty_df d" and "in_ax ev"
    and "iloc d (current_row_index s) = Inr row"
    and "snap (columns d) (snd row) (xdata ev) (ydata ev) = Inr p"
    and "map_of (results s) (current_row_index s) = Some r"
    and "k = (if heap s r LEFT = None then LEFT else if heap s r TOP = None then TOP else RIGHT)"
    and "heap s r k = None"
  shows "data (state_of (on_click fp ev s)) = data s
     \<and> current_row_index (state_of (on_click fp ev s)) = current_row_index s
     \<and> results (state_of (on_click fp ev s)) = results s
     \<and> heap (state_of (on_click fp ev s)) = (heap s)(r := (heap s r)(k \<mapsto> p))"
proof -
  have "state_of (on_click fp ev s) = state_of (update_plot fp (set_slot r k p s))"
    using assms(7,8) by (simp add: on_click_state [OF assms(1-6)] split: if_splits)
  then show ?thesis by simp
qed

lemma click_at_fields [simp]:
  "in_ax (click_at x y)" "xdata (click_at x y) = round64 x" "ydata (click_at x y) = round64 y"
  by (simp_all add: click_at_def)

lemma example_snaps:
  "snap [Fin 0, Fin 1, Fin 2, Fin 3, Fin 4] [Fin 0, Fin 5, Fin 1, Fin 4, Fin 0]
     (round64 (11 / 10)) (round64 (26 / 5)) = Inr (Fin 1, Fin 5)"
  "snap [Fin 0, Fin 1, Fin 2, Fin 3, Fin 4] [Fin 0, Fin 5, Fin 1, Fin 4, Fin 0]
     (round64 (31 / 10)) (round64 (39 / 10)) = Inr (Fin 3, Fin 4)"
  "snap [Fin 0, Fin 1, Fin 2, Fin 3, Fin 4] [Fin 0, Fin 5, Fin 1, Fin 4, Fin 0]
     (round64 2) (round64 1) = Inr (Fin 2, Fin 1)"
  "snap [Fin 0, Fin 1, Fin 2, Fin 3, Fin 4] [Fin 0, Fin 5, Fin 1, Fin 4, Fin 0]
     (round64 0) (round64 0) = Inr (Fin 0, Fin 0)"
  by (simp_all add: snap_def sq_dist_def np_argmin_def round64_eval split del: if_split)

lemma parse_2_1: "parse_xy float_decimal ''2,1'' = Some (Fin 2, Fin 1)"
  by (simp add: parse_xy_def float_decimal_def unsigned_decimal_def digit_value_def strip_def
        is_space_def round64_ints)

lemma manual_top_example:
  "manual_input float_decimal fp [''2,1'', [], []] example_session =
     ([], state_of (update_plot fp
            (example_session\<lparr>heap := (heap example_session)(0 := no_points(TOP \<mapsto> (Fin 2, Fin 1))),
                             results := [(0, 0), (1, 2)]\<rparr>)))"
  by (simp add: manual_input_def enter_def parse_2_1 set_slot_def example_session_def
        example_not_empty)

text \<open>
  C1. Starting from a row with all three slots unset, four clicks inside the plot: the first
  sets LEFT, the second TOP, the third RIGHT, each to the sample its click snaps to and leaving
  the other slots as they are; the fourth resets the three slots to unset and records no point.
  The row is the current row of any session with a table; the states are those after each
  click, whether or not the redraw that follows raised.
\<close>

theorem fill_order:
  assumes "data s = Some d" and "\<not> empty_df d"
    and "iloc d (current_row_index s) = Inr row" and "snd row \<noteq> []"
    and "in_ax e1" and "in_ax e2" and "in_ax e3" and "in_ax e4"
    and "get_row_view s (current_row_index s) = Some no_points"
  shows "let s1 = state_of (on_click find_peaks e1 s);
             s2 = state_of (on_click find_peaks e2 s1);
             s3 = state_of (on_click find_peaks e3 s2);
             s4 = state_of (on_click find_peaks e4 s3)
         in \<exists>p1 p2 p3.
              snap (columns d) (snd row) (xdata e1) (ydata e1) = Inr p1
            \<and> snap (columns d) (snd row) (xdata e2) (ydata e2) = Inr p2
            \<and> snap (columns d) (snd row) (xdata e3) (ydata e3) = Inr p3
            \<and> get_row_view s1 (current_row_index s) = Some (no_points(LEFT \<mapsto> p1))
            \<and> get_row_view s2 (current_row_index s) = Some (no_points(LEFT \<mapsto> p1, TOP \<mapsto> p2))
            \<and> get_row_view s3 (current_row_index s)
                = Some (no_points(LEFT \<mapsto> p1, TOP \<mapsto> p2, RIGHT \<mapsto> p3))
            \<and> get_row_view s4 (current_row_index s) = Some no_points"
proof -
  have cols: "columns d \<noteq> []"
    using assms(2) by (simp add: empty_df_def)
  obtain p1 where p1: "snap (columns d) (snd row) (xdata e1) (ydata e1) = Inr p1"
    using snap_returns [OF cols assms(4)] by blast
  obtain p2 where p2: "snap (columns d) (snd row) (xdata e2) (ydata e2) = Inr p2"
    using snap_returns [OF cols assms(4)] by blast
  obtain p3 where p3: "snap (columns d) (snd row) (xdata e3) (ydata e3) = Inr p3"
    using snap_returns [OF cols assms(4)] by blast
  obtain p4 where p4: "snap (columns d) (snd row) (xdata e4) (ydata e4) = Inr p4"
    using snap_returns [OF cols assms(4)] by blast
  obtain r where r: "map_of (results s) (current_row_index s) = Some r" and h0: "heap s r = no_points"
    using assms(9) by (auto simp: get_row_view_def)
  define s1 where "s1 = state_of (on_click find_peaks e1 s)"
  define s2 where "s2 = state_of (on_click find_peaks e2 s1)"
  define s3 where "s3 = state_of (on_click find_peaks e3 s2)"
  define s4 where "s4 = state_of (on_click find_peaks e4 s3)"
  have f1: "data s1 = Some d" "current_row_index s1 = current_row_index s" "results s1 = results s"
    "heap s1 r = no_points(LEFT \<mapsto> p1)"
    using on_click_fill [OF assms(1,2,5,3) p1 r, of LEFT find_peaks] h0
    by (simp_all add: s1_def assms(1) no_points_def)
  have f2: "data s2 = Some d" "current_row_index s2 = current_row_index s" "results s2 = results s"
    "heap s2 r = no_points(LEFT \<mapsto> p1, TOP \<mapsto> p2)"
    using on_click_fill [of s1 d e2 row p2 r TOP find_peaks] f1 assms(2,3,6) p2 r
    by (simp_all add: s2_def no_points_def)
  have f3: "data s3 = Some d" "current_row_index s3 = current_row_index s" "results s3 = results s"
    "heap s3 r = no_points(LEFT \<mapsto> p1, TOP \<mapsto> p2, RIGHT \<mapsto> p3)"
    using on_click_fill [of s2 d e3 row p3 r RIGHT find_peaks] f2 assms(2,3,7) p3 r
    by (simp_all add: s3_def no_points_def)
  have v4: "get_row_view s4 (current_row_index s) = Some no_points"
    using on_click_view [of s3 d e4 row p4 r find_peaks] f3 assms(2,3,8) p4 r
    by (simp add: s4_def)
  have "get_row_view s1 (current_row_index s) = Some (no_points(LEFT \<mapsto> p1))"
    "get_row_view s2 (current_row_index s) = Some (no_points(LEFT \<mapsto> p1, TOP \<mapsto> p2))"
    "get_row_view s3 (current_row_index s) = Some (no_points(LEFT \<mapsto> p1, TOP \<mapsto> p2, RIGHT \<mapsto> p3))"
    using f1 f2 f3 r by (simp_all add: get_row_view_def)
  with v4 p1 p2 p3 show ?thesis
    unfolding Let_def s1_def [symmetric] s2_def [symmetric] s3_def [symmetric] s4_def [symmetric]
    by blast
qed

theorem fill_order_witness:
  "let s1 = state_of (on_click example_find_peaks (click_at (11 / 10) (26 / 5)) example_session);
       s2 = state_of (on_click example_find_peaks (click_at (31 / 10) (39 / 10)) s1);
       s3 = state_of (on_click example_find_peaks (click_at 2 1) s2);
       s4 = state_of (on_click example_find_peaks (click_at 0 0) s3)
   in get_row_view example_session 0 = Some no_points
    \<and> get_row_view s1 0 = Some (no_points(LEFT \<mapsto> (Fin 1, Fin 5)))
    \<and> get_row_view s2 0 = Some (no_points(LEFT \<mapsto> (Fin 1, Fin 5), TOP \<mapsto> (Fin 3, Fin 4)))
    \<and> get_row_view s3 0
        = Some (no_points(LEFT \<mapsto> (Fin 1, Fin 5), TOP \<mapsto> (Fin 3, Fin 4), RIGHT \<mapsto> (Fin 2, Fin 1)))
    \<and> get_row_view s4 0 = Some no_points"
proof -
  have h1: "data example_session = Some example_table"
    and h3: "iloc example_table (current_row_index example_session)
               = Inr (''r0'', [Fin 0, Fin 5, Fin 1, Fin 4, Fin 0])"
    and h4: "snd (''r0'', [Fin 0, Fin 5, Fin 1, Fin 4, Fin 0]) \<noteq> []"
    and h9: "get_row_view example_session (current_row_index example_session) = Some no_points"
    by (simp_all add: example_session_def example_iloc0 get_row_view_def)
  have cur: "current_row_index example_session = 0"
    by (simp add: example_session_def)
  show ?thesis
    using fill_order [OF h1 example_not_empty h3 h4, of "click_at (11 / 10) (26 / 5)"
        "click_at (31 / 10) (39 / 10)" "click_at 2 1" "click_at 0 0", OF _ _ _ _ h9,
        of example_find_peaks] h9
    by (simp add: Let_def example_columns example_snaps cur)
qed

text \<open>
  C10. A click chooses its slot from the contents of the row's dict: the first of LEFT, TOP,
  RIGHT that holds \<^verbatim>\<open>None\<close> receives the snapped point, the other slots keep their values,
  and only when none holds \<^verbatim>\<open>None\<close> is the row reset. The instance that follows is a click after
  a manual entry of TOP alone: it fills LEFT.
\<close>

theorem confirm_point_fills_first_unset:
  assumes "data s = Some d" and "\<not> empty_df d" and "in_ax ev"
    and "iloc d (current_row_index s) = Inr row"
    and "snap (columns d) (snd row) (xdata ev) (ydata ev) = Inr p"
    and "map_of (results s) (current_row_index s) = Some r"
  shows "get_row_view (state_of (on_click find_peaks ev s)) (current_row_index s) =
     Some (if heap s r LEFT = None then (heap s r)(LEFT \<mapsto> p)
           else if heap s r TOP = None then (heap s r)(TOP \<mapsto> p)
           else if heap s r RIGHT = None then (heap s r)(RIGHT \<mapsto> p)
           else no_points)"
proof -
  note st = on_click_state [OF assms, of find_peaks]
  consider "heap s r LEFT = None"
    | "heap s r LEFT \<noteq> None" "heap s r TOP = None"
    | "heap s r LEFT \<noteq> None" "heap s r TOP \<noteq> None" "heap s r RIGHT = None"
    | "heap s r LEFT \<noteq> None" "heap s r TOP \<noteq> None" "heap s r RIGHT \<noteq> None"
    by blast
  then show ?thesis
  proof cases
    case 1
    then show ?thesis
      by (auto simp: st view_set_slot [OF assms(6)])
  next
    case 2
    then show ?thesis
      by (auto simp: st view_set_slot [OF assms(6)])
  next
    case 3
    then show ?thesis
      by (auto simp: st view_set_slot [OF assms(6)])
  next
    case 4
    then show ?thesis
      by (auto simp: st view_reset)
  qed
qed

theorem confirm_point_fills_first_unset_witness:
  "get_row_view
     (state_of (on_click example_find_peaks (click_at (11 / 10) (26 / 5))
        (snd (manual_input float_decimal example_find_peaks [''2,1'', [], []] example_session)))) 0
   = Some (no_points(TOP \<mapsto> (Fin 2, Fin 1), LEFT \<mapsto> (Fin 1, Fin 5)))"
proof -
  let ?s = "snd (manual_input float_decimal example_find_peaks [''2,1'', [], []] example_session)"
  have h1: "data ?s = Some example_table"
    and h4: "iloc example_table (current_row_index ?s) = Inr (''r0'', [Fin 0, Fin 5, Fin 1, Fin 4, Fin 0])"
    and h6: "map_of (results ?s) (current_row_index ?s) = Some 0"
    and hp: "heap ?s 0 = no_points(TOP \<mapsto> (Fin 2, Fin 1))"
    by (simp_all add: manual_top_example) (simp_all add: example_session_def example_iloc0)
  have h5: "snap (columns example_table) (snd (''r0'', [Fin 0, Fin 5, Fin 1, Fin 4, Fin 0]))
              (xdata (click_at (11 / 10) (26 / 5))) (ydata (click_at (11 / 10) (26 / 5)))
            = Inr (Fin 1, Fin 5)"
    by (simp add: example_columns example_snaps)
  have cur: "current_row_index ?s = 0"
    by (simp add: manual_top_example) (simp add: example_session_def)
  show ?thesis
    using confirm_point_fills_first_unset [OF h1 example_not_empty _ h4 h5 h6, of example_find_peaks]
    by (simp add: hp cur no_points_def)
qed

subsection \<open>Snapping\<close>

text \<open>On values that are not NaN, \<^verbatim>\<open>>=\<close> is a total preorder.\<close>

lemma fge_refl: "\<not> is_nan a \<Longrightarrow> fge a a"
  by (cases a) simp_all

lemma fge_total: "\<not> is_nan a \<Longrightarrow> \<not> is_nan b \<Longrightarrow> fge a b \<or> fge b a"
  by (cases a; cases b) auto

lemma fge_trans: "fge a b \<Longrightarrow> fge b c \<Longrightarrow> fge a c"
  by (cases a; cases b; cases c) auto

lemma argmin_scan_bound: "mi < i \<Longrightarrow> argmin_scan vs i mp mi < i + length vs"
proof (induction vs arbitrary: i mp mi)
  case Nil
  then show ?case by simp
next
  case (Cons v vs)
  have "argmin_scan vs (Suc i) v i < Suc i + length vs"
    by (rule Cons.IH) simp
  moreover have "argmin_scan vs (Suc i) mp mi < Suc i + length vs"
    by (rule Cons.IH) (use Cons.prems in simp)
  ultimately show ?case
    using Cons.prems by simp
qed

lemma argmin_scan_first_min:
  assumes "\<forall>v\<in>set (pre @ vs). \<not> is_nan v"
    and "length pre = i" and "mi < i" and "pre ! mi = mp"
    and "\<forall>j<i. fge (pre ! j) mp" and "\<forall>j<mi. \<not> fge mp (pre ! j)"
  shows "argmin_scan vs i mp mi < length (pre @ vs)
       \<and> (\<forall>j<length (pre @ vs). fge ((pre @ vs) ! j) ((pre @ vs) ! argmin_scan vs i mp mi))
       \<and> (\<forall>j<argmin_scan vs i mp mi.
            \<not> fge ((pre @ vs) ! argmin_scan vs i mp mi) ((pre @ vs) ! j))"
  using assms
proof (induction vs arbitrary: pre i mp mi)
  case Nil
  then show ?case by simp
next
  case (Cons v vs)
  have mp: "\<not> is_nan mp"
    using Cons.prems(1,2,3,4) by (metis UnCI nth_mem set_append)
  have v: "\<not> is_nan v"
    using Cons.prems(1) by simp
  have all: "\<forall>w\<in>set ((pre @ [v]) @ vs). \<not> is_nan w"
    using Cons.prems(1) by simp
  have len: "length (pre @ [v]) = Suc i"
    using Cons.prems(2) by simp
  show ?case
  proof (cases "fge v mp")
    case True
    have a: "mi < Suc i" using Cons.prems(3) by simp
    have b: "(pre @ [v]) ! mi = mp"
      using Cons.prems(2,3,4) by (simp add: nth_append)
    have c: "\<forall>j<Suc i. fge ((pre @ [v]) ! j) mp"
      using Cons.prems(2,5) True by (auto simp: nth_append less_Suc_eq)
    have d: "\<forall>j<mi. \<not> fge mp ((pre @ [v]) ! j)"
      using Cons.prems(2,3,6) by (auto simp: nth_append)
    from Cons.IH [OF all len a b c d] True mp show ?thesis
      by simp
  next
    case False
    then have lt: "fge mp v"
      using fge_total [OF v mp] by simp
    have a: "i < Suc i" by simp
    have b: "(pre @ [v]) ! i = v"
      using Cons.prems(2) by (simp add: nth_append)
    have c: "\<forall>j<Suc i. fge ((pre @ [v]) ! j) v"
      using Cons.prems(2,5) lt fge_refl [OF v] fge_trans
      by (auto simp: nth_append less_Suc_eq)
    have d: "\<forall>j<i. \<not> fge v ((pre @ [v]) ! j)"
      using Cons.prems(2,5) False fge_trans by (auto simp: nth_append)
    from Cons.IH [OF all len a b c d] False mp show ?thesis
      by simp
  qed
qed

lemma np_argmin_bound:
  "a \<noteq> [] \<Longrightarrow> \<exists>k<length a. np_argmin a = Inr k"
  using argmin_scan_bound [of 0 1] by (cases a) (auto simp: np_argmin_def)

lemma np_argmin_first_min:
  assumes "a \<noteq> []" and "\<forall>v\<in>set a. \<not> is_nan v" and "np_argmin a = Inr k"
  shows "(\<forall>j<length a. fge (a ! j) (a ! k)) \<and> (\<forall>j<k. \<not> fge (a ! k) (a ! j))"
proof -
  from assms(1) obtain v vs where a: "a = v # vs"
    by (cases a) auto
  have k: "k = argmin_scan vs 1 v 0"
    using assms(3) by (simp add: a np_argmin_def)
  have "\<not> is_nan v"
    using assms(2) a by simp
  then have "\<forall>j<1. fge ([v] ! j) v"
    by (simp add: fge_refl)
  with argmin_scan_first_min [of "[v]" vs 1 0 v] assms(2) show ?thesis
    by (simp add: a k)
qed

lemma fsquare_not_nan: "\<not> is_nan v \<Longrightarrow> \<not> is_nan (fsquare v)"
  by (cases v) (simp_all add: round64_not_nan)

lemma fsquare_not_NInf: "fsquare v \<noteq> NInf"
  by (cases v) (simp_all add: round64_def Let_def)

lemma fsub_Fin_not_nan: "\<not> is_nan v \<Longrightarrow> \<not> is_nan (fsub v (Fin q))"
  by (cases v) (simp_all add: round64_not_nan)

lemma fadd_not_nan:
  "\<not> is_nan v \<Longrightarrow> \<not> is_nan w \<Longrightarrow> v \<noteq> NInf \<Longrightarrow> w \<noteq> NInf \<Longrightarrow> \<not> is_nan (fadd v w)"
  by (cases v; cases w) (simp_all add: round64_not_nan)

lemma sq_dist_not_nan:
  "\<not> is_nan (fst p) \<Longrightarrow> \<not> is_nan (snd p) \<Longrightarrow> \<not> is_nan (sq_dist (Fin qx) (Fin qy) p)"
  unfolding sq_dist_def
  by (intro fadd_not_nan fsquare_not_nan fsub_Fin_not_nan fsquare_not_NInf)

lemma snap_tie_by_rounding:
  "snap [Fin 0, Fin 1] [Fin 100000000, Fin 100000000] (Fin (3 / 4)) (Fin 0)
     = Inr (Fin 0, Fin 100000000)"
  by (simp add: snap_def sq_dist_def np_argmin_def round64_eval split del: if_split)

text \<open>
  For a row with at least one sample, the snap of a click is a sample of the row, at a
  position \<open>k\<close> of \<^verbatim>\<open>zip(x_data, y_data)\<close>. When no computed distance is NaN, every sample's
  computed distance is at least that of sample \<open>k\<close>, and every sample before \<open>k\<close> has a strictly
  greater one: \<open>k\<close> is the first minimum of the distances as float64 computes them. Two
  samples whose exact distances differ can tie after rounding (\<open>snap_tie_by_rounding\<close>). For a
  finite click no distance is NaN as soon as no coordinate of the row is (\<open>sq_dist_not_nan\<close>).
\<close>

lemma snap_first_minimum:
  assumes "x_data \<noteq> []" and "y_data \<noteq> []"
  shows "\<exists>k<length (zip x_data y_data).
           snap x_data y_data qx qy = Inr (zip x_data y_data ! k)
         \<and> ((\<forall>p\<in>set (zip x_data y_data). \<not> is_nan (sq_dist qx qy p)) \<longrightarrow>
              (\<forall>j<length (zip x_data y_data).
                 fge (sq_dist qx qy (zip x_data y_data ! j)) (sq_dist qx qy (zip x_data y_data ! k)))
            \<and> (\<forall>j<k. \<not> fge (sq_dist qx qy (zip x_data y_data ! k))
                            (sq_dist qx qy (zip x_data y_data ! j))))"
proof -
  let ?zs = "zip x_data y_data"
  let ?ds = "map (sq_dist qx qy) ?zs"
  have ne: "?ds \<noteq> []"
    using assms by (cases x_data; cases y_data) simp_all
  from np_argmin_bound [OF ne] obtain k where k: "k < length ?zs" "np_argmin ?ds = Inr k"
    by auto
  have res: "snap x_data y_data qx qy = Inr (?zs ! k)"
    using k by (simp add: snap_def)
  have "(\<forall>j<length ?zs. fge (sq_dist qx qy (?zs ! j)) (sq_dist qx qy (?zs ! k)))
      \<and> (\<forall>j<k. \<not> fge (sq_dist qx qy (?zs ! k)) (sq_dist qx qy (?zs ! j)))"
    if "\<forall>p\<in>set ?zs. \<not> is_nan (sq_dist qx qy p)"
  proof -
    have "\<forall>v\<in>set ?ds. \<not> is_nan v"
      using that by simp
    from np_argmin_first_min [OF ne this k(2)] k(1) show ?thesis
      by simp
  qed
  with k(1) res show ?thesis
    by blast
qed

lemma example_row1:
  "data (dispatch pf example_find_peaks ld Next_button example_session) = Some example_table"
  "current_row_index (dispatch pf example_find_peaks ld Next_button example_session) = 1"
  "results (dispatch pf example_find_peaks ld Next_button example_session) = [(0, 1), (1, 2)]"
  "heap (dispatch pf example_find_peaks ld Next_button example_session) = (\<lambda>r. no_points)"
  by (simp_all add: dispatch_def next_row_button_clicked_def goto_row_def Let_def
        example_session_def example_not_empty example_iloc1)

lemma example_snap_nan:
  "snap [Fin 0, Fin 1, Fin 2, Fin 3, Fin 4] [Fin 1, NaN, Fin 2, PInf, Fin 0] (round64 2) (round64 2)
     = Inr (Fin 1, NaN)"
  by (simp add: snap_def sq_dist_def np_argmin_def round64_eval split del: if_split)

text \<open>
  C2. The snap is meant to be the sample nearest to the click ("find the closest actual data
  point", line 207 of the source). On a row that holds a NaN the code returns the first sample
  whose distance is NaN: the click at (2, 2) on row 1 of the example lies on the sample
  (2, 2), at distance 0, but the snap is the sample (1, NaN), whose distance is NaN and
  compares with nothing, and the click handler stores it as the LEFT point of the row.
\<close>

theorem snap_returns_first_nan:
  "iloc example_table 1 = Inr (''r1'', [Fin 1, NaN, Fin 2, PInf, Fin 0])
   \<and> snap (columns example_table) [Fin 1, NaN, Fin 2, PInf, Fin 0] (Fin 2) (Fin 2) = Inr (Fin 1, NaN)
   \<and> (Fin 2, Fin 2) \<in> set (zip (columns example_table) [Fin 1, NaN, Fin 2, PInf, Fin 0])
   \<and> sq_dist (Fin 2) (Fin 2) (Fin 2, Fin 2) = Fin 0
   \<and> sq_dist (Fin 2) (Fin 2) (Fin 1, NaN) = NaN
   \<and> \<not> fge (sq_dist (Fin 2) (Fin 2) (Fin 2, Fin 2)) (sq_dist (Fin 2) (Fin 2) (Fin 1, NaN))
   \<and> get_row_view
       (run float_decimal example_find_peaks (\<lambda>f. None)
          [Next_button, Button_press (click_at 2 2)] example_session) 1
     = Some (no_points(LEFT \<mapsto> (Fin 1, NaN)))"
proof -
  let ?s1 = "dispatch float_decimal example_find_peaks (\<lambda>f. None) Next_button example_session"
  have "get_row_view (state_of (on_click example_find_peaks (click_at 2 2) ?s1)) (current_row_index ?s1)
      = Some (no_points(LEFT \<mapsto> (Fin 1, NaN)))"
    by (subst on_click_view [where d = example_table
          and row = "(''r1'', [Fin 1, NaN, Fin 2, PInf, Fin 0])" and p = "(Fin 1, NaN)" and r = 2])
       (simp_all add: example_row1 example_not_empty example_iloc1 example_columns example_snap_nan
          no_points_def)
  then have click: "get_row_view
       (run float_decimal example_find_peaks (\<lambda>f. None)
          [Next_button, Button_press (click_at 2 2)] example_session) 1
     = Some (no_points(LEFT \<mapsto> (Fin 1, NaN)))"
    by (simp add: example_row1 dispatch_def [of _ _ _ "Button_press _"])
  have rest: "iloc example_table 1 = Inr (''r1'', [Fin 1, NaN, Fin 2, PInf, Fin 0])
   \<and> snap (columns example_table) [Fin 1, NaN, Fin 2, PInf, Fin 0] (Fin 2) (Fin 2) = Inr (Fin 1, NaN)
   \<and> (Fin 2, Fin 2) \<in> set (zip (columns example_table) [Fin 1, NaN, Fin 2, PInf, Fin 0])
   \<and> sq_dist (Fin 2) (Fin 2) (Fin 2, Fin 2) = Fin 0
   \<and> sq_dist (Fin 2) (Fin 2) (Fin 1, NaN) = NaN
   \<and> \<not> fge (sq_dist (Fin 2) (Fin 2) (Fin 2, Fin 2)) (sq_dist (Fin 2) (Fin 2) (Fin 1, NaN))"
    by (simp add: example_iloc1 example_columns snap_def sq_dist_def np_argmin_def round64_eval
        split del: if_split)
  from rest click show ?thesis
    by blast
qed

subsection \<open>Navigation\<close>

lemma goto_row_fields [simp]:
  "current_row_index (state_of (goto_row fp d i s)) = i"
  "data (state_of (goto_row fp d i s)) = data s"
  "num_rows (state_of (goto_row fp d i s)) = num_rows s"
  "results (state_of (goto_row fp d i s)) = results s"
  "heap (state_of (goto_row fp d i s)) = heap s"
  "selected_points (state_of (goto_row fp d i s)) = selected_points s"
  by (simp_all add: goto_row_def Let_def split: sum.splits)

lemma forward_backward:
  fixes i n :: int
  assumes "0 \<le> i" and "i < n"
  shows "((i + 1) mod n - 1 + n) mod n = i"
proof (cases "i + 1 = n")
  case True
  then have "(i + 1) mod n = 0" by simp
  then show ?thesis using assms True by (simp add: zmod_minus1)
next
  case False
  then have "(i + 1) mod n = i + 1" using assms by simp
  then show ?thesis using assms by simp
qed

lemma backward_forward:
  fixes i n :: int
  assumes "0 \<le> i" and "i < n"
  shows "((i - 1 + n) mod n + 1) mod n = i"
proof (cases "i = 0")
  case True
  then have "(i - 1 + n) mod n = n - 1" using assms by (simp add: zmod_minus1)
  then show ?thesis using assms True by simp
next
  case False
  then have "(i - 1 + n) mod n = i - 1" using assms by simp
  then show ?thesis using assms by simp
qed

lemma forward_backward_nf:
  fixes i n :: int
  shows "0 \<le> i \<Longrightarrow> i < n \<Longrightarrow> ((i + 1) mod n - 1) mod n = i"
  using forward_backward [of i n] by simp

lemma backward_forward_nf:
  fixes i n :: int
  shows "0 \<le> i \<Longrightarrow> i < n \<Longrightarrow> ((i - 1) mod n + 1) mod n = i"
  using backward_forward [of i n] by simp

text \<open>
  C8. In a session with a table of \<open>n > 0\<close> rows and a current row \<open>i\<close> in range, forward
  navigation moves to \<open>(i + 1) mod n\<close> and backward navigation to \<open>(i - 1 + n) mod n\<close>; forward
  then backward, and backward then forward, return to \<open>i\<close>; \<open>results\<close> and the dicts it refers to
  are not touched; the arrow keys do what the buttons do. Without a table, or with a table of
  no rows, navigation returns without any change.
\<close>

theorem navigation_wraps:
  "(data s = Some d \<and> \<not> empty_df d \<and> num_rows s = len_df d
      \<and> 0 \<le> current_row_index s \<and> current_row_index s < num_rows s \<longrightarrow>
      (let fwd = state_of (next_row_button_clicked find_peaks s);
           bwd = state_of (prev_row_button_clicked find_peaks s)
       in current_row_index fwd = (current_row_index s + 1) mod num_rows s
        \<and> current_row_index bwd = (current_row_index s - 1 + num_rows s) mod num_rows s
        \<and> current_row_index (state_of (prev_row_button_clicked find_peaks fwd)) = current_row_index s
        \<and> current_row_index (state_of (next_row_button_clicked find_peaks bwd)) = current_row_index s
        \<and> results fwd = results s \<and> heap fwd = heap s
        \<and> results bwd = results s \<and> heap bwd = heap s
        \<and> snd (on_key pyfloat find_peaks load_data inp new_file ''right'' s)
            = next_row_button_clicked find_peaks s
        \<and> snd (on_key pyfloat find_peaks load_data inp new_file ''left'' s)
            = prev_row_button_clicked find_peaks s))
   \<and> (data s = None \<or> (data s = Some d \<and> len_df d = 0) \<longrightarrow>
        next_row_button_clicked find_peaks s = Done s
      \<and> prev_row_button_clicked find_peaks s = Done s
      \<and> on_key pyfloat find_peaks load_data inp new_file ''right'' s = (inp, Done s)
      \<and> on_key pyfloat find_peaks load_data inp new_file ''left'' s = (inp, Done s))"
proof (intro conjI impI)
  assume a: "data s = Some d \<and> \<not> empty_df d \<and> num_rows s = len_df d
      \<and> 0 \<le> current_row_index s \<and> current_row_index s < num_rows s"
  then have n: "num_rows s \<noteq> 0" by auto
  have fwd: "state_of (next_row_button_clicked find_peaks s)
      = state_of (goto_row find_peaks d ((current_row_index s + 1) mod num_rows s) s)"
    using a n by (simp add: next_row_button_clicked_def)
  have bwd: "state_of (prev_row_button_clicked find_peaks s)
      = state_of (goto_row find_peaks d ((current_row_index s - 1 + num_rows s) mod num_rows s) s)"
    using a n by (simp add: prev_row_button_clicked_def)
  have bk: "state_of (prev_row_button_clicked find_peaks s') =
      state_of (goto_row find_peaks d ((current_row_index s' - 1 + num_rows s) mod num_rows s) s')"
    if "data s' = data s" "num_rows s' = num_rows s" for s'
    using a n that by (simp add: prev_row_button_clicked_def)
  have fw: "state_of (next_row_button_clicked find_peaks s') =
      state_of (goto_row find_peaks d ((current_row_index s' + 1) mod num_rows s) s')"
    if "data s' = data s" "num_rows s' = num_rows s" for s'
    using a n that by (simp add: next_row_button_clicked_def)
  show "let fwd = state_of (next_row_button_clicked find_peaks s);
           bwd = state_of (prev_row_button_clicked find_peaks s)
       in current_row_index fwd = (current_row_index s + 1) mod num_rows s
        \<and> current_row_index bwd = (current_row_index s - 1 + num_rows s) mod num_rows s
        \<and> current_row_index (state_of (prev_row_button_clicked find_peaks fwd)) = current_row_index s
        \<and> current_row_index (state_of (next_row_button_clicked find_peaks bwd)) = current_row_index s
        \<and> results fwd = results s \<and> heap fwd = heap s
        \<and> results bwd = results s \<and> heap bwd = heap s
        \<and> snd (on_key pyfloat find_peaks load_data inp new_file ''right'' s)
            = next_row_button_clicked find_peaks s
        \<and> snd (on_key pyfloat find_peaks load_data inp new_file ''left'' s)
            = prev_row_button_clicked find_peaks s"
    unfolding Let_def
  proof (intro conjI)
    show "snd (on_key pyfloat find_peaks load_data inp new_file ''right'' s)
            = next_row_button_clicked find_peaks s"
      using a by (simp add: on_key_def next_row_button_clicked_def)
    show "snd (on_key pyfloat find_peaks load_data inp new_file ''left'' s)
            = prev_row_button_clicked find_peaks s"
      using a by (simp add: on_key_def prev_row_button_clicked_def)
    show "current_row_index (state_of (prev_row_button_clicked find_peaks
             (state_of (next_row_button_clicked find_peaks s)))) = current_row_index s"
      using a by (simp add: bk fwd forward_backward_nf)
    show "current_row_index (state_of (next_row_button_clicked find_peaks
             (state_of (prev_row_button_clicked find_peaks s)))) = current_row_index s"
      using a by (simp add: fw bwd backward_forward_nf)
  qed (simp_all add: fwd bwd)
next
  assume "data s = None \<or> data s = Some d \<and> len_df d = 0"
  then have e: "data s = None \<or> (data s = Some d \<and> empty_df d)"
    by (auto simp: len_df_def empty_df_def)
  from e show "next_row_button_clicked find_peaks s = Done s"
    by (auto simp: next_row_button_clicked_def)
  from e show "prev_row_button_clicked find_peaks s = Done s"
    by (auto simp: prev_row_button_clicked_def)
  from e show "on_key pyfloat find_peaks load_data inp new_file ''right'' s = (inp, Done s)"
    by (auto simp: on_key_def)
  from e show "on_key pyfloat find_peaks load_data inp new_file ''left'' s = (inp, Done s)"
    by (auto simp: on_key_def)
qed

theorem navigation_wraps_witness:
  "current_row_index (state_of (next_row_button_clicked example_find_peaks example_session)) = 1
   \<and> current_row_index (state_of (prev_row_button_clicked example_find_peaks example_session)) = 1
   \<and> current_row_index
        (state_of (prev_row_button_clicked example_find_peaks
           (state_of (next_row_button_clicked example_find_peaks example_session)))) = 0
   \<and> current_row_index
        (state_of (next_row_button_clicked example_find_peaks
           (state_of (prev_row_button_clicked example_find_peaks example_session)))) = 0
   \<and> results (state_of (next_row_button_clicked example_find_peaks example_session))
        = results example_session
   \<and> heap (state_of (next_row_button_clicked example_find_peaks example_session))
        = heap example_session
   \<and> next_row_button_clicked example_find_peaks globals0 = Done globals0
   \<and> on_key float_decimal example_find_peaks (\<lambda>f. None) [] [] ''left'' globals0 = ([], Done globals0)"
proof -
  have h: "data example_session = Some example_table \<and> \<not> empty_df example_table
      \<and> num_rows example_session = len_df example_table
      \<and> 0 \<le> current_row_index example_session
      \<and> current_row_index example_session < num_rows example_session"
    by (simp add: example_session_def example_not_empty example_len)
  have g: "data globals0 = None \<or> (data globals0 = Some example_table \<and> len_df example_table = 0)"
    by (simp add: globals0_def)
  have v: "current_row_index example_session = 0" "num_rows example_session = 2"
    by (simp_all add: example_session_def)
  note a = navigation_wraps [where s = example_session and d = example_table
      and find_peaks = example_find_peaks and pyfloat = float_decimal and load_data = "\<lambda>f. None"
      and inp = "[]" and new_file = "[]", THEN conjunct1, THEN mp, OF h]
  note b = navigation_wraps [where s = globals0 and d = example_table
      and find_peaks = example_find_peaks and pyfloat = float_decimal and load_data = "\<lambda>f. None"
      and inp = "[]" and new_file = "[]", THEN conjunct2, THEN mp, OF g]
  show ?thesis
    using a b by (simp add: Let_def v)
qed

subsection \<open>Loading a table\<close>

lemma set_range_int: "set (range_int n) = {i. 0 \<le> i \<and> i < n}"
proof -
  have "i \<in> set (range_int n) \<longleftrightarrow> 0 \<le> i \<and> i < n" for i
  proof
    assume "i \<in> set (range_int n)"
    then show "0 \<le> i \<and> i < n" by (auto simp: range_int_def)
  next
    assume "0 \<le> i \<and> i < n"
    then have "nat i < nat n" "int (nat i) = i" by auto
    then show "i \<in> set (range_int n)"
      unfolding range_int_def by (metis atLeastLessThan_iff image_eqI le0 list.set_map set_upt)
  qed
  then show ?thesis by auto
qed

lemma init_results_frame:
  "init_results is acc s = (res, s') \<Longrightarrow> s' = s\<lparr>heap := heap s', next_ref := next_ref s'\<rparr>"
proof (induction "is" arbitrary: acc s)
  case Nil
  then show ?case by simp
next
  case (Cons i rest)
  from Cons.prems Cons.IH [of "AList.update i (next_ref s) acc" "snd (new_dict no_points s)"]
  show ?case
    by (simp add: new_dict_def)
qed

lemma init_results_spec:
  "init_results is acc s = (res, s') \<Longrightarrow>
     next_ref s \<le> next_ref s'
   \<and> (\<forall>a<next_ref s. heap s' a = heap s a)
   \<and> (\<forall>i. i \<notin> set is \<longrightarrow> map_of res i = map_of acc i)
   \<and> (\<forall>i\<in>set is. \<exists>r. map_of res i = Some r \<and> heap s' r = no_points)"
proof (induction "is" arbitrary: acc s)
  case Nil
  then show ?case by simp
next
  case (Cons i rest)
  let ?r0 = "next_ref s"
  let ?s1 = "s\<lparr>heap := (heap s)(?r0 := no_points), next_ref := Suc ?r0\<rparr>"
  have run: "init_results rest (AList.update i ?r0 acc) ?s1 = (res, s')"
    using Cons.prems by (simp add: new_dict_def)
  note ih = Cons.IH [OF run]
  have 1: "next_ref s \<le> next_ref s'"
    using ih by simp
  have 2: "\<forall>a<next_ref s. heap s' a = heap s a"
    using ih by simp
  have 3: "\<forall>j. j \<notin> set (i # rest) \<longrightarrow> map_of res j = map_of acc j"
    using ih by (simp add: update_conv')
  have 4: "\<exists>r. map_of res j = Some r \<and> heap s' r = no_points" if "j \<in> set (i # rest)" for j
  proof (cases "j \<in> set rest")
    case True
    then show ?thesis using ih by blast
  next
    case False
    then have "j = i" using that by simp
    with False have "map_of res j = Some ?r0"
      using ih by (simp add: update_conv')
    moreover have "heap s' ?r0 = no_points"
      using ih by simp
    ultimately show ?thesis by blast
  qed
  from 1 2 3 4 show ?case by blast
qed

lemma update_plot_empty_cache:
  assumes "data s = Some d" and "\<not> empty_df d" and "current_row_index s = 0"
    and "peak_candidates s = Map.empty" and "map_of (results s) 0 = Some r"
  shows "peak_candidates (state_of (update_plot fp s)) =
           (case candidates_of (columns d) (snd (rows d ! 0)) (fp (snd (rows d ! 0))) of
              Inl e \<Rightarrow> Map.empty
            | Inr cs \<Rightarrow> [0 \<mapsto> cs])"
proof -
  have "rows d \<noteq> []"
    using assms(2) by (simp add: empty_df_def)
  then have "0 < len_df d" "iloc d 0 = Inr (rows d ! 0)"
    by (simp_all add: len_df_def iloc_def)
  then show ?thesis
    using assms by (simp add: update_plot_def store_candidates_def Let_def split: sum.splits)
qed

text \<open>
  C7. Loading is all or nothing. When the dialog is cancelled, the loader fails or the loaded
  table is empty, the session is returned as it was. Otherwise the new table and its path are
  installed, the current row is 0, every row position of the new table has a dict with the
  three slots unset and no other position has one, and the cache holds nothing of the old
  table: it was emptied, and the redraw that ends the load has stored the candidates of the
  new row 0 (nothing if the peak finder's positions were out of range).
\<close>

theorem change_data_file_all_or_nothing:
  "(new_file = [] \<or> load_data new_file = None \<or> (load_data new_file = Some nd \<and> empty_df nd) \<longrightarrow>
      change_data_file load_data find_peaks new_file s = s)
   \<and> (new_file \<noteq> [] \<and> load_data new_file = Some nd \<and> \<not> empty_df nd \<longrightarrow>
      (let s' = change_data_file load_data find_peaks new_file s
       in data s' = Some nd \<and> data_filepath s' = Some new_file
        \<and> num_rows s' = len_df nd \<and> current_row_index s' = 0
        \<and> (\<forall>i. get_row_view s' i = (if 0 \<le> i \<and> i < len_df nd then Some no_points else None))
        \<and> peak_candidates s' =
            (case candidates_of (columns nd) (snd (rows nd ! 0)) (find_peaks (snd (rows nd ! 0))) of
               Inl e \<Rightarrow> Map.empty
             | Inr cs \<Rightarrow> [0 \<mapsto> cs])))"
proof (intro conjI impI)
  assume "new_file = [] \<or> load_data new_file = None \<or> (load_data new_file = Some nd \<and> empty_df nd)"
  then show "change_data_file load_data find_peaks new_file s = s"
    by (auto simp: change_data_file_def)
next
  assume a: "new_file \<noteq> [] \<and> load_data new_file = Some nd \<and> \<not> empty_df nd"
  let ?s1 = "s\<lparr>data := Some nd, data_filepath := Some new_file,
               num_rows := len_df nd, current_row_index := 0\<rparr>"
  obtain res s2 where init: "init_results (range_int (len_df nd)) [] ?s1 = (res, s2)"
    by (cases "init_results (range_int (len_df nd)) [] ?s1") auto
  let ?s3 = "s2\<lparr>results := res, peak_candidates := Map.empty\<rparr>"
  have cdf: "change_data_file load_data find_peaks new_file s = state_of (update_plot find_peaks ?s3)"
    using a init by (simp add: change_data_file_def)
  have s2: "s2 = ?s1\<lparr>heap := heap s2, next_ref := next_ref s2\<rparr>"
    using init_results_frame [OF init] .
  have f: "data s2 = Some nd" "data_filepath s2 = Some new_file" "num_rows s2 = len_df nd"
    "current_row_index s2 = 0"
    by (subst s2, simp)+
  note sp = init_results_spec [OF init]
  have view: "get_row_view ?s3 i = (if 0 \<le> i \<and> i < len_df nd then Some no_points else None)" for i
  proof (cases "i \<in> set (range_int (len_df nd))")
    case True
    with sp obtain r where "map_of res i = Some r" "heap s2 r = no_points" by blast
    with True show ?thesis by (simp add: get_row_view_def set_range_int)
  next
    case False
    with sp have "map_of res i = None" by simp
    with False show ?thesis by (simp add: get_row_view_def set_range_int)
  qed
  have "0 < len_df nd"
    using a by (simp add: empty_df_def len_df_def)
  with view [of 0] obtain r where r: "map_of res 0 = Some r"
    by (auto simp: get_row_view_def)
  have pc: "peak_candidates (state_of (update_plot find_peaks ?s3)) =
           (case candidates_of (columns nd) (snd (rows nd ! 0)) (find_peaks (snd (rows nd ! 0))) of
              Inl e \<Rightarrow> Map.empty
            | Inr cs \<Rightarrow> [0 \<mapsto> cs])"
    using a f r by (intro update_plot_empty_cache [where r = r]) simp_all
  show "let s' = change_data_file load_data find_peaks new_file s
       in data s' = Some nd \<and> data_filepath s' = Some new_file
        \<and> num_rows s' = len_df nd \<and> current_row_index s' = 0
        \<and> (\<forall>i. get_row_view s' i = (if 0 \<le> i \<and> i < len_df nd then Some no_points else None))
        \<and> peak_candidates s' =
            (case candidates_of (columns nd) (snd (rows nd ! 0)) (find_peaks (snd (rows nd ! 0))) of
               Inl e \<Rightarrow> Map.empty
             | Inr cs \<Rightarrow> [0 \<mapsto> cs])"
    unfolding Let_def cdf using f view pc by simp
qed

theorem change_data_file_all_or_nothing_witness:
  "(let s = state_of (on_click example_find_peaks (click_at (11 / 10) (26 / 5)) example_session);
        s' = change_data_file
               (\<lambda>f. Some \<lparr>columns = [Fin 0, Fin 1, Fin 2], rows = [(''a'', [Fin 0, Fin 1, Fin 0])]\<rparr>)
               (\<lambda>y. [1]) ''other.csv'' s
    in change_data_file (\<lambda>f. None) (\<lambda>y. [1]) ''other.csv'' s = s
     \<and> get_row_view s 0 = Some (no_points(LEFT \<mapsto> (Fin 1, Fin 5)))
     \<and> current_row_index s' = 0 \<and> num_rows s' = 1
     \<and> get_row_view s' 0 = Some no_points \<and> get_row_view s' 1 = None
     \<and> peak_candidates s' 0 = Some [(Fin 1, Fin 1)] \<and> peak_candidates s' 1 = None)"
proof -
  let ?t = "\<lparr>columns = [Fin 0, Fin 1, Fin 2], rows = [(''a'', [Fin 0, Fin 1, Fin 0])]\<rparr>"
  let ?s = "state_of (on_click example_find_peaks (click_at (11 / 10) (26 / 5)) example_session)"
  have h1: "''other.csv'' = [] \<or> (\<lambda>f. None) ''other.csv'' = None
      \<or> ((\<lambda>f. None) ''other.csv'' = Some ?t \<and> empty_df ?t)"
    by simp
  have h2: "''other.csv'' \<noteq> [] \<and> (\<lambda>f. Some ?t) ''other.csv'' = Some ?t \<and> \<not> empty_df ?t"
    by (simp add: empty_df_def)
  note a = change_data_file_all_or_nothing [where new_file = "''other.csv''"
      and load_data = "\<lambda>f. None" and nd = ?t and find_peaks = "\<lambda>y. [1]" and s = ?s,
      THEN conjunct1, THEN mp, OF h1]
  note b = change_data_file_all_or_nothing [where new_file = "''other.csv''"
      and load_data = "\<lambda>f. Some ?t" and nd = ?t and find_peaks = "\<lambda>y. [1]" and s = ?s,
      THEN conjunct2, THEN mp, OF h2]
  have v: "get_row_view ?s 0 = Some (no_points(LEFT \<mapsto> (Fin 1, Fin 5)))"
    using on_click_view [of example_session example_table "click_at (11 / 10) (26 / 5)"
        "(''r0'', [Fin 0, Fin 5, Fin 1, Fin 4, Fin 0])" "(Fin 1, Fin 5)" 1 example_find_peaks]
    by (simp add: example_session_def example_not_empty example_iloc0 example_columns
          example_snaps no_points_def)
  show ?thesis
    using a b v by (simp add: Let_def len_df_def)
qed

subsection \<open>Manual entry\<close>




lemma manual_input_abort0:
  assumes "data s = Some d" and "\<not> empty_df d"
    and "enter pf TOP inp s = (inp1, Inl e)"
  shows "manual_input pf fp inp s = (inp1, s)"
  using assms by (simp add: manual_input_def)

lemma manual_input_abort1:
  assumes "data s = Some d" and "\<not> empty_df d"
    and "enter pf TOP inp s = (inp1, Inr s1)"
    and "enter pf LEFT inp1 s1 = (inp2, Inl e)"
  shows "manual_input pf fp inp s = (inp2, s1)"
  using assms by (simp add: manual_input_def)

lemma manual_input_abort2:
  assumes "data s = Some d" and "\<not> empty_df d"
    and "enter pf TOP inp s = (inp1, Inr s1)"
    and "enter pf LEFT inp1 s1 = (inp2, Inr s2)"
    and "enter pf RIGHT inp2 s2 = (inp3, Inl e)"
  shows "manual_input pf fp inp s = (inp3, s2)"
  using assms by (simp add: manual_input_def)

lemma manual_input_complete:
  assumes "data s = Some d" and "\<not> empty_df d"
    and "enter pf TOP inp s = (inp1, Inr s1)"
    and "enter pf LEFT inp1 s1 = (inp2, Inr s2)"
    and "enter pf RIGHT inp2 s2 = (inp3, Inr s3)"
  shows "manual_input pf fp inp s =
           (inp3, state_of (update_plot fp
              (s3\<lparr>results := AList.update (current_row_index s3) (selected_points s3) (results s3)\<rparr>)))"
  using assms by (simp add: manual_input_def)




lemma parse_examples:
  "parse_xy float_decimal ''2,1'' = Some (Fin 2, Fin 1)"
  "parse_xy float_decimal ''3,4'' = Some (Fin 3, Fin 4)"
  "parse_xy float_decimal ''5,6'' = Some (Fin 5, Fin 6)"
  "parse_xy float_decimal ''2;1'' = None"
  "parse_xy float_decimal ''3;4'' = None"
  by (simp_all add: parse_xy_def float_decimal_def unsigned_decimal_def digit_value_def strip_def
        is_space_def round64_ints)






lemma manual_top_on:
  assumes "data s = Some d" and "\<not> empty_df d" and "parse_xy pf str = Some p" and "str \<noteq> []"
  shows "snd (manual_input pf fp [str, [], []] s) =
     state_of (update_plot fp
       (s\<lparr>heap := (heap s)(selected_points s := (heap s (selected_points s))(TOP \<mapsto> p)),
          results := AList.update (current_row_index s) (selected_points s) (results s)\<rparr>))"
  using assms by (simp add: manual_input_def enter_def set_slot_def)

lemma key_m:
  "data s = Some d \<Longrightarrow> \<not> empty_df d \<Longrightarrow>
     dispatch pf fp ld (Key_press ''m'' inp nf) s = snd (manual_input pf fp inp s)"
  by (simp add: dispatch_def on_key_def case_prod_beta)

text \<open>
  C4. A manual entry is meant to store the typed pair in its slot and to change nothing else.
  The code assigns the keys of the one dict \<open>selected_points\<close> and then binds the row to that
  dict. First run: a click sets LEFT of row 0, then a manual entry of TOP alone on row 0 leaves
  the row with TOP set and LEFT unset again. Second run: a manual entry of TOP on row 0, a move
  to row 1 and a manual entry of TOP there change TOP of row 0, because both rows now refer to
  the same dict.
\<close>

theorem manual_entry_overwrites_and_aliases:
  "get_row_view
     (run float_decimal example_find_peaks (\<lambda>f. None)
        [Button_press (click_at (11 / 10) (26 / 5))] example_session) 0
     = Some (no_points(LEFT \<mapsto> (Fin 1, Fin 5)))
   \<and> get_row_view
     (run float_decimal example_find_peaks (\<lambda>f. None)
        [Button_press (click_at (11 / 10) (26 / 5)), Key_press ''m'' [''2,1'', [], []] []]
        example_session) 0
     = Some (no_points(TOP \<mapsto> (Fin 2, Fin 1)))
   \<and> get_row_view
     (run float_decimal example_find_peaks (\<lambda>f. None)
        [Key_press ''m'' [''2,1'', [], []] [], Next_button] example_session) 0
     = Some (no_points(TOP \<mapsto> (Fin 2, Fin 1)))
   \<and> get_row_view
     (run float_decimal example_find_peaks (\<lambda>f. None)
        [Key_press ''m'' [''2,1'', [], []] [], Next_button, Key_press ''m'' [''3,4'', [], []] []]
        example_session) 0
     = Some (no_points(TOP \<mapsto> (Fin 3, Fin 4)))"
proof -
  let ?c = "Button_press (click_at (11 / 10) (26 / 5))"
  let ?m1 = "Key_press ''m'' [''2,1'', [], []] []"
  let ?m2 = "Key_press ''m'' [''3,4'', [], []] []"
  let ?step = "dispatch float_decimal example_find_peaks (\<lambda>f. None)"
  have d0: "data example_session = Some example_table" "current_row_index example_session = 0"
    "results example_session = [(0, 1), (1, 2)]" "selected_points example_session = 0"
    "heap example_session = (\<lambda>r. no_points)" "num_rows example_session = 2"
    by (simp_all add: example_session_def)
  \<comment> \<open>a click, then a manual entry of TOP on the same row\<close>
  define s1 where "s1 = ?step ?c example_session"
  have s1: "s1 = state_of (on_click example_find_peaks (click_at (11 / 10) (26 / 5)) example_session)"
    by (simp add: s1_def dispatch_def)
  have f1: "data s1 = Some example_table" "current_row_index s1 = 0"
    "results s1 = [(0, 1), (1, 2)]" "selected_points s1 = 0"
    "heap s1 = (\<lambda>r. no_points)(1 := no_points(LEFT \<mapsto> (Fin 1, Fin 5)))"
    unfolding s1
    by (simp_all add: on_click_state [where d = example_table
          and row = "(''r0'', [Fin 0, Fin 5, Fin 1, Fin 4, Fin 0])" and p = "(Fin 1, Fin 5)" and r = 1]
        d0 example_not_empty example_iloc0 example_columns example_snaps set_slot_def no_points_def)
  have v1: "get_row_view s1 0 = Some (no_points(LEFT \<mapsto> (Fin 1, Fin 5)))"
    by (simp add: get_row_view_def f1)
  have v2: "get_row_view (?step ?m1 s1) 0 = Some (no_points(TOP \<mapsto> (Fin 2, Fin 1)))"
    by (simp add: key_m [OF f1(1) example_not_empty]
          manual_top_on [OF f1(1) example_not_empty parse_examples(1)] get_row_view_def f1)
  \<comment> \<open>a manual entry of TOP on row 0, then one on row 1\<close>
  define t1 where "t1 = ?step ?m1 example_session"
  have g1: "data t1 = Some example_table" "current_row_index t1 = 0"
    "results t1 = [(0, 0), (1, 2)]" "selected_points t1 = 0" "num_rows t1 = 2"
    "heap t1 = (\<lambda>r. no_points)(0 := no_points(TOP \<mapsto> (Fin 2, Fin 1)))"
    unfolding t1_def
    by (simp_all add: key_m [OF d0(1) example_not_empty]
          manual_top_on [OF d0(1) example_not_empty parse_examples(1)] d0)
  define t2 where "t2 = ?step Next_button t1"
  have g2: "data t2 = Some example_table" "current_row_index t2 = 1"
    "results t2 = [(0, 0), (1, 2)]" "selected_points t2 = 0"
    "heap t2 = (\<lambda>r. no_points)(0 := no_points(TOP \<mapsto> (Fin 2, Fin 1)))"
    by (simp_all add: t2_def dispatch_def next_row_button_clicked_def g1 example_not_empty)
  have v3: "get_row_view t2 0 = Some (no_points(TOP \<mapsto> (Fin 2, Fin 1)))"
    by (simp add: get_row_view_def g2)
  have v4: "get_row_view (?step ?m2 t2) 0 = Some (no_points(TOP \<mapsto> (Fin 3, Fin 4)))"
    by (simp add: key_m [OF g2(1) example_not_empty]
          manual_top_on [OF g2(1) example_not_empty parse_examples(2)] get_row_view_def g2)
  show ?thesis
    using v1 v2 v3 v4 unfolding s1_def t2_def t1_def by (simp only: run.simps simp_thms)
qed

subsection \<open>Requests for a row that is cached\<close>

text \<open>
  A handler that ends on a row with a cache entry makes no call of the peak finder: every
  handler other than the file dialog redraws at most once, as its last step, and keeps the
  cache.
\<close>

lemma quiet_update:
  assumes "peak_candidates s' = peak_candidates s" and "finder_calls s' = finder_calls s"
    and "peak_candidates s (current_row_index s') \<noteq> None"
  shows "finder_calls (state_of (update_plot fp s')) = finder_calls s"
  using update_plot_cached [of s' fp] assms by simp

lemma on_click_index: "current_row_index (state_of (on_click fp ev s)) = current_row_index s"
  by (simp add: on_click_def set_slot_def new_dict_def Let_def split: option.splits sum.splits)

lemma on_click_quiet:
  "peak_candidates s (current_row_index s) \<noteq> None \<Longrightarrow>
     finder_calls (state_of (on_click fp ev s)) = finder_calls s"
  by (simp add: on_click_def set_slot_def new_dict_def Let_def quiet_update
      split: option.splits sum.splits)

lemma goto_row_quiet:
  "peak_candidates s i \<noteq> None \<Longrightarrow> finder_calls (state_of (goto_row fp d i s)) = finder_calls s"
  by (simp add: goto_row_def Let_def quiet_update split: sum.splits)

lemma next_quiet:
  "peak_candidates s (current_row_index (state_of (next_row_button_clicked fp s))) \<noteq> None \<Longrightarrow>
     finder_calls (state_of (next_row_button_clicked fp s)) = finder_calls s"
  by (simp add: next_row_button_clicked_def goto_row_quiet split: option.splits if_splits)

lemma prev_quiet:
  "peak_candidates s (current_row_index (state_of (prev_row_button_clicked fp s))) \<noteq> None \<Longrightarrow>
     finder_calls (state_of (prev_row_button_clicked fp s)) = finder_calls s"
  by (simp add: prev_row_button_clicked_def goto_row_quiet split: option.splits if_splits)

lemma clear_selection_index:
  "current_row_index (state_of (clear_selection fp s)) = current_row_index s"
  by (simp add: clear_selection_def new_dict_def split: option.splits sum.splits)

lemma clear_selection_quiet:
  "peak_candidates s (current_row_index s) \<noteq> None \<Longrightarrow>
     finder_calls (state_of (clear_selection fp s)) = finder_calls s"
  by (simp add: clear_selection_def new_dict_def quiet_update split: option.splits sum.splits)

lemma enter_frame:
  "enter pf k inp s = (inp1, Inr s1) \<Longrightarrow>
     peak_candidates s1 = peak_candidates s \<and> finder_calls s1 = finder_calls s
     \<and> current_row_index s1 = current_row_index s"
  by (auto simp: enter_def set_slot_def split: list.splits if_splits option.splits)

lemma manual_input_shape:
  "\<exists>s3. peak_candidates s3 = peak_candidates s \<and> finder_calls s3 = finder_calls s
       \<and> current_row_index s3 = current_row_index s
       \<and> (snd (manual_input pf fp inp s) = s3
          \<or> snd (manual_input pf fp inp s) =
              state_of (update_plot fp
                (s3\<lparr>results := AList.update (current_row_index s3) (selected_points s3)
                                  (results s3)\<rparr>)))"
proof (cases "\<exists>d. data s = Some d \<and> \<not> empty_df d")
  case False
  then have "snd (manual_input pf fp inp s) = s"
    by (auto simp: manual_input_def split: option.splits)
  then show ?thesis by blast
next
  case True
  then obtain d where d: "data s = Some d" "\<not> empty_df d" by blast
  obtain inp1 r1 where e1: "enter pf TOP inp s = (inp1, r1)" by (cases "enter pf TOP inp s")
  show ?thesis
  proof (cases r1)
    case (Inl e)
    with d e1 have "snd (manual_input pf fp inp s) = s"
      by (simp add: manual_input_abort0)
    then show ?thesis by blast
  next
    case (Inr s1)
    note r1 = this
    note f1 = enter_frame [OF e1 [unfolded r1]]
    obtain inp2 r2 where e2: "enter pf LEFT inp1 s1 = (inp2, r2)" by (cases "enter pf LEFT inp1 s1")
    show ?thesis
    proof (cases r2)
      case (Inl e)
      with d e1 r1 e2 have "snd (manual_input pf fp inp s) = s1"
        by (simp add: manual_input_abort1)
      with f1 show ?thesis by blast
    next
      case (Inr s2)
      note r2 = this
      note f2 = enter_frame [OF e2 [unfolded r2]]
      obtain inp3 r3 where e3: "enter pf RIGHT inp2 s2 = (inp3, r3)"
        by (cases "enter pf RIGHT inp2 s2")
      show ?thesis
      proof (cases r3)
        case (Inl e)
        with d e1 r1 e2 r2 e3 have "snd (manual_input pf fp inp s) = s2"
          by (simp add: manual_input_abort2)
        with f1 f2 show ?thesis by (metis)
      next
        case (Inr s3)
        note f3 = enter_frame [OF e3 [unfolded Inr]]
        from d e1 r1 e2 r2 e3 Inr have "snd (manual_input pf fp inp s) =
            state_of (update_plot fp
                (s3\<lparr>results := AList.update (current_row_index s3) (selected_points s3)
                                  (results s3)\<rparr>))"
          by (simp add: manual_input_complete)
        with f1 f2 f3 show ?thesis by (metis)
      qed
    qed
  qed
qed

lemma manual_input_index:
  "current_row_index (snd (manual_input pf fp inp s)) = current_row_index s"
  using manual_input_shape [of s pf fp inp] by auto

lemma manual_input_quiet:
  assumes "peak_candidates s (current_row_index s) \<noteq> None"
  shows "finder_calls (snd (manual_input pf fp inp s)) = finder_calls s"
proof -
  from manual_input_shape [of s pf fp inp] obtain s3 where
    f: "peak_candidates s3 = peak_candidates s" "finder_calls s3 = finder_calls s"
      "current_row_index s3 = current_row_index s"
    and c: "snd (manual_input pf fp inp s) = s3
          \<or> snd (manual_input pf fp inp s) =
              state_of (update_plot fp
                (s3\<lparr>results := AList.update (current_row_index s3) (selected_points s3)
                                  (results s3)\<rparr>))"
    by blast
  from c show ?thesis
  proof
    assume "snd (manual_input pf fp inp s) = s3"
    with f show ?thesis by simp
  next
    assume a: "snd (manual_input pf fp inp s) =
              state_of (update_plot fp
                (s3\<lparr>results := AList.update (current_row_index s3) (selected_points s3)
                                  (results s3)\<rparr>))"
    show ?thesis
      unfolding a using f assms by (intro quiet_update) simp_all
  qed
qed

lemma save_plot_frame:
  "finder_calls (state_of (save_plot i p s)) = finder_calls s"
  "current_row_index (state_of (save_plot i p s)) = current_row_index s"
  by (simp_all add: save_plot_def Let_def split: option.splits sum.splits)

lemma save_results_frame:
  "finder_calls (state_of (save_results s)) = finder_calls s"
  "current_row_index (state_of (save_results s)) = current_row_index s"
  by (simp_all add: save_results_def Let_def save_plot_frame split: option.splits sum.splits)

lemma on_key_quiet:
  assumes "key \<noteq> ''o''"
    and "peak_candidates s (current_row_index (state_of (snd (on_key pf fp ld inp nf key s)))) \<noteq> None"
  shows "finder_calls (state_of (snd (on_key pf fp ld inp nf key s))) = finder_calls s"
proof (cases "\<exists>d. data s = Some d \<and> \<not> empty_df d")
  case False
  then show ?thesis
    by (auto simp: on_key_def split: option.splits)
next
  case True
  then obtain d where d: "data s = Some d" "\<not> empty_df d" by blast
  consider "key = ''right''" | "key = ''left''" | "key = ''m''" | "key = ''c''" | "key = ''s''"
    | "key = ''p''" | "key = ''a''"
    | "key \<notin> {''right'', ''left'', ''m'', ''c'', ''s'', ''o'', ''p'', ''a''}"
    using assms(1) by blast
  then show ?thesis
  proof cases
    case 1
    with d assms(2) show ?thesis
      by (simp add: on_key_def goto_row_quiet split: if_splits)
  next
    case 2
    with d assms(2) show ?thesis
      by (simp add: on_key_def goto_row_quiet split: if_splits)
  next
    case 3
    with d assms(2) show ?thesis
      by (simp add: on_key_def case_prod_beta manual_input_index manual_input_quiet)
  next
    case 4
    with d assms(2) show ?thesis
      by (simp add: on_key_def clear_selection_index clear_selection_quiet)
  next
    case 5
    with d show ?thesis
      by (simp add: on_key_def save_results_frame)
  next
    case 6
    with d show ?thesis
      by (simp add: on_key_def save_plot_frame)
  next
    case 7
    with d show ?thesis
      by (simp add: on_key_def save_all_plots_def)
  next
    case 8
    with d show ?thesis
      by (simp add: on_key_def)
  qed
qed

lemma dispatch_quiet:
  assumes "\<not> opens_file ev"
    and "peak_candidates s (current_row_index (dispatch pf fp ld ev s)) \<noteq> None"
  shows "finder_calls (dispatch pf fp ld ev s) = finder_calls s"
proof (cases ev)
  case (Button_press c)
  with assms(2) show ?thesis
    by (simp add: dispatch_def on_click_index on_click_quiet)
next
  case (Key_press key inp nf)
  with assms show ?thesis
    by (simp add: dispatch_def on_key_quiet)
next
  case Prev_button
  with assms(2) show ?thesis
    by (simp add: dispatch_def prev_quiet)
next
  case Next_button
  with assms(2) show ?thesis
    by (simp add: dispatch_def next_quiet)
next
  case Save_button
  then show ?thesis
    by (simp add: dispatch_def save_results_frame)
next
  case (Switch_button nf)
  with assms(1) show ?thesis by simp
next
  case Save_plot_button
  then show ?thesis
    by (simp add: dispatch_def save_plot_frame)
qed

lemma run_append:
  "run pf fp ld (evs @ [ev]) s = dispatch pf fp ld ev (run pf fp ld evs s)"
  by (induction evs arbitrary: s) simp_all

lemma example_first_redraw:
  "update_plot example_find_peaks example_session =
     Done (example_session\<lparr>finder_calls := [[Fin 0, Fin 5, Fin 1, Fin 4, Fin 0]],
                            peak_candidates := [0 \<mapsto> [(Fin 1, Fin 5), (Fin 3, Fin 4)]]\<rparr>)"
  using update_plot_first [of example_session example_table
      "(''r0'', [Fin 0, Fin 5, Fin 1, Fin 4, Fin 0])" 1 example_find_peaks
      "[(Fin 1, Fin 5), (Fin 3, Fin 4)]"]
  by (simp add: example_session_def example_not_empty example_len example_iloc0 example_columns
        example_find_peaks_def)

lemma example_next_redraw:
  "finder_calls (dispatch pf example_find_peaks ld Next_button
      (example_session\<lparr>finder_calls := [[Fin 0, Fin 5, Fin 1, Fin 4, Fin 0]],
                        peak_candidates := [0 \<mapsto> [(Fin 1, Fin 5), (Fin 3, Fin 4)]]\<rparr>))
     = [[Fin 0, Fin 5, Fin 1, Fin 4, Fin 0], [Fin 1, NaN, Fin 2, PInf, Fin 0]]"
  by (simp add: dispatch_def next_row_button_clicked_def goto_row_def update_plot_def
        store_candidates_def Let_def example_session_def example_not_empty example_len
        example_iloc1 example_columns example_find_peaks_def)

text \<open>
  C6. The cache memoizes. The first redraw of a row that has no entry calls the peak finder
  once, on the row's y-values, stores the pairs \<open>(x_data[p], y_data[p])\<close> of the returned
  positions (all of them samples of the row) and returns. A second redraw changes nothing: no
  call of the peak finder, the same entry. And so it stays through every sequence of events
  that opens no file: the entry of the row is the stored sequence, a redraw of the row changes
  nothing, and an event that ends on the row adds no call to the trace of the peak finder. The
  positions the peak finder answers are taken to lie within the row.
\<close>

theorem candidates_memoized:
  assumes "data s = Some d" and "\<not> empty_df d"
    and "current_row_index s < len_df d" and "iloc d (current_row_index s) = Inr row"
    and "map_of (results s) (current_row_index s) = Some r"
    and "peak_candidates s (current_row_index s) = None"
    and "candidates_of (columns d) (snd row) (find_peaks (snd row)) = Inr cs"
  shows "\<exists>s1. update_plot find_peaks s = Done s1
      \<and> finder_calls s1 = finder_calls s @ [snd row]
      \<and> peak_candidates s1 = (peak_candidates s)(current_row_index s \<mapsto> cs)
      \<and> cs = map (\<lambda>p. (columns d ! p, snd row ! p)) (find_peaks (snd row))
      \<and> set cs \<subseteq> set (zip (columns d) (snd row))
      \<and> update_plot find_peaks s1 = Done s1
      \<and> (\<forall>evs. (\<forall>ev\<in>set evs. \<not> opens_file ev) \<longrightarrow>
            (let s2 = run pyfloat find_peaks load_data evs s1
             in peak_candidates s2 (current_row_index s) = Some cs
              \<and> (current_row_index s2 = current_row_index s \<longrightarrow>
                    state_of (update_plot find_peaks s2) = s2)
              \<and> (\<forall>ev. \<not> opens_file ev
                    \<and> current_row_index (run pyfloat find_peaks load_data (evs @ [ev]) s1)
                        = current_row_index s \<longrightarrow>
                    finder_calls (run pyfloat find_peaks load_data (evs @ [ev]) s1)
                      = finder_calls s2)))"
proof -
  let ?s1 = "s\<lparr>finder_calls := finder_calls s @ [snd row],
               peak_candidates := (peak_candidates s)(current_row_index s \<mapsto> cs)\<rparr>"
  let ?run = "run pyfloat find_peaks load_data"
  have first: "update_plot find_peaks s = Done ?s1"
    using assms by (rule update_plot_first)
  have again: "update_plot find_peaks ?s1 = Done ?s1"
    using assms(1-5) by (intro update_plot_again [where cs = cs and d = d and row = row and r = r]) simp_all
  have later: "peak_candidates (?run evs ?s1) (current_row_index s) = Some cs
      \<and> (current_row_index (?run evs ?s1) = current_row_index s \<longrightarrow>
            state_of (update_plot find_peaks (?run evs ?s1)) = ?run evs ?s1)
      \<and> (\<forall>ev. \<not> opens_file ev
            \<and> current_row_index (?run (evs @ [ev]) ?s1) = current_row_index s \<longrightarrow>
            finder_calls (?run (evs @ [ev]) ?s1) = finder_calls (?run evs ?s1))"
    if no: "\<forall>ev\<in>set evs. \<not> opens_file ev" for evs
  proof -
    have kept: "peak_candidates (?run evs ?s1) (current_row_index s) = Some cs"
      using run_kept [OF no, of ?s1 pyfloat find_peaks load_data] by (simp add: cache_kept_def)
    have idle: "state_of (update_plot find_peaks (?run evs ?s1)) = ?run evs ?s1"
      if "current_row_index (?run evs ?s1) = current_row_index s"
      using kept that by (intro update_plot_cached) simp
    have quiet: "finder_calls (?run (evs @ [ev]) ?s1) = finder_calls (?run evs ?s1)"
      if "\<not> opens_file ev" "current_row_index (?run (evs @ [ev]) ?s1) = current_row_index s" for ev
      unfolding run_append using that kept
      by (intro dispatch_quiet) (simp_all add: run_append)
    from kept idle quiet show ?thesis by blast
  qed
  show ?thesis
    using first again later candidates_of_Inr [OF assms(7)] candidates_of_samples [OF assms(7)]
    by (intro exI [of _ ?s1]) (simp add: Let_def)
qed

text \<open>
  Row 0 of the example: after its first redraw, a move to row 1 and back sends row 1 to the
  peak finder once and row 0 not again.
\<close>

theorem candidates_memoized_witness:
  "peak_candidates (state_of (update_plot example_find_peaks example_session)) 0
     = Some [(Fin 1, Fin 5), (Fin 3, Fin 4)]
   \<and> finder_calls (state_of (update_plot example_find_peaks example_session))
     = [[Fin 0, Fin 5, Fin 1, Fin 4, Fin 0]]
   \<and> update_plot example_find_peaks (state_of (update_plot example_find_peaks example_session))
     = Done (state_of (update_plot example_find_peaks example_session))
   \<and> peak_candidates
       (run float_decimal example_find_peaks (\<lambda>f. None)
          [Next_button, Button_press \<lparr>in_ax = True, xdata = Fin 1, ydata = Fin 1\<rparr>, Prev_button]
          (state_of (update_plot example_find_peaks example_session))) 0
     = Some [(Fin 1, Fin 5), (Fin 3, Fin 4)]
   \<and> current_row_index
       (run float_decimal example_find_peaks (\<lambda>f. None) [Next_button, Prev_button]
          (state_of (update_plot example_find_peaks example_session))) = 0
   \<and> finder_calls
       (run float_decimal example_find_peaks (\<lambda>f. None) [Next_button, Prev_button]
          (state_of (update_plot example_find_peaks example_session)))
     = [[Fin 0, Fin 5, Fin 1, Fin 4, Fin 0], [Fin 1, NaN, Fin 2, PInf, Fin 0]]"
proof -
  let ?run = "run float_decimal example_find_peaks (\<lambda>f. None)"
  have h1: "data example_session = Some example_table"
    and h3: "current_row_index example_session < len_df example_table"
    and h4: "iloc example_table (current_row_index example_session)
               = Inr (''r0'', [Fin 0, Fin 5, Fin 1, Fin 4, Fin 0])"
    and h5: "map_of (results example_session) (current_row_index example_session) = Some 1"
    and h6: "peak_candidates example_session (current_row_index example_session) = None"
    and h7: "candidates_of (columns example_table) (snd (''r0'', [Fin 0, Fin 5, Fin 1, Fin 4, Fin 0]))
               (example_find_peaks (snd (''r0'', [Fin 0, Fin 5, Fin 1, Fin 4, Fin 0])))
             = Inr [(Fin 1, Fin 5), (Fin 3, Fin 4)]"
    by (simp_all add: example_session_def example_len example_iloc0 example_columns
          example_find_peaks_def)
  have h8: "\<forall>ev\<in>set [Next_button, Button_press \<lparr>in_ax = True, xdata = Fin 1, ydata = Fin 1\<rparr>, Prev_button].
              \<not> opens_file ev"
    and h9: "\<forall>ev\<in>set [Next_button]. \<not> opens_file ev"
    by simp_all
  from candidates_memoized [where find_peaks = example_find_peaks and pyfloat = float_decimal
      and load_data = "\<lambda>f. None", OF h1 example_not_empty h3 h4 h5 h6 h7]
  obtain s1 where s1: "update_plot example_find_peaks example_session = Done s1"
    and r: "finder_calls s1 = finder_calls example_session @ [[Fin 0, Fin 5, Fin 1, Fin 4, Fin 0]]"
      "peak_candidates s1 = (peak_candidates example_session)
          (current_row_index example_session \<mapsto> [(Fin 1, Fin 5), (Fin 3, Fin 4)])"
      "update_plot example_find_peaks s1 = Done s1"
    and later: "\<forall>evs. (\<forall>ev\<in>set evs. \<not> opens_file ev) \<longrightarrow>
         (let s2 = ?run evs s1
          in peak_candidates s2 (current_row_index example_session)
               = Some [(Fin 1, Fin 5), (Fin 3, Fin 4)]
           \<and> (current_row_index s2 = current_row_index example_session \<longrightarrow>
                 state_of (update_plot example_find_peaks s2) = s2)
           \<and> (\<forall>ev. \<not> opens_file ev
                 \<and> current_row_index (?run (evs @ [ev]) s1) = current_row_index example_session \<longrightarrow>
                 finder_calls (?run (evs @ [ev]) s1) = finder_calls s2))"
    by (auto simp: snd_conv)
  have cur: "current_row_index example_session = 0" and fc: "finder_calls example_session = []"
    by (simp_all add: example_session_def)
  have s1_eq: "s1 = example_session\<lparr>finder_calls := [[Fin 0, Fin 5, Fin 1, Fin 4, Fin 0]],
                            peak_candidates := [0 \<mapsto> [(Fin 1, Fin 5), (Fin 3, Fin 4)]]\<rparr>"
    using s1 by (simp add: example_first_redraw)
  have bk: "current_row_index (?run [Next_button, Prev_button] s1) = 0"
    by (simp add: s1_eq dispatch_def next_row_button_clicked_def prev_row_button_clicked_def
          example_session_def example_not_empty)
  have one: "finder_calls (?run [Next_button] s1)
      = [[Fin 0, Fin 5, Fin 1, Fin 4, Fin 0], [Fin 1, NaN, Fin 2, PInf, Fin 0]]"
    by (simp add: s1_eq example_next_redraw)
  have two: "finder_calls (?run ([Next_button] @ [Prev_button]) s1) = finder_calls (?run [Next_button] s1)"
    using later [THEN spec, THEN mp, OF h9] bk by (simp add: Let_def cur)
  have three: "peak_candidates (?run [Next_button, Button_press \<lparr>in_ax = True, xdata = Fin 1, ydata = Fin 1\<rparr>, Prev_button] s1) 0
      = Some [(Fin 1, Fin 5), (Fin 3, Fin 4)]"
    using later [THEN spec, THEN mp, OF h8] by (simp add: Let_def cur)
  show ?thesis
    using r(1,2,3) bk one two three by (simp add: s1 cur fc)
qed

end
